theory Spec2Isabelle
  imports Main "HOL-Library.Word"
begin

section \<open>Data model\<close>

text \<open>
  The game driver exists twice in the sources: \<^verbatim>\<open>src/core/play.cpp\<close> returns a
  \<^verbatim>\<open>GameThingy\<close>, \<^verbatim>\<open>src/cli/match/play.cpp\<close> returns a PGN. Both are embedded
  below. Everything outside the two functions is explicit:
  \<^item> the Ataxx library (\<^verbatim>\<open>libataxx::Position\<close>), \<^verbatim>\<open>parse_move\<close> and the three
    predicates of \<^verbatim>\<open>ataxx/adjudicate.hpp\<close> are a record of functions over an opaque
    type of positions and an opaque type of moves;
  \<^item> the two engine processes are the sequence of answers the driver receives from
    them, each with the wall-clock time the driver measured around \<^verbatim>\<open>go\<close>;
  \<^item> \<^verbatim>\<open>std::cout\<close> is a string that grows.
  Times are milliseconds. The fields of \<^verbatim>\<open>SearchSettings\<close> and the adjudication
  settings are declared in \<^verbatim>\<open>settings.hpp\<close>, which is not among the sources; they are
  integers here and the driver's arithmetic on them is read without overflow. The
  variables that the command-line driver declares as \<^verbatim>\<open>int\<close> itself (\<^verbatim>\<open>ply_count\<close>,
  \<^verbatim>\<open>btime\<close>, \<^verbatim>\<open>wtime\<close>) are 32-bit words read as signed numbers, and a value
  assigned to them is narrowed to 32 bits.
\<close>

datatype Side = Black | White

text \<open>\<^verbatim>\<open>operator!\<close> on a side.\<close>

fun not_side :: "Side \<Rightarrow> Side" where
  "not_side Black = White"
| "not_side White = Black"

text \<open>\<^verbatim>\<open>libataxx::Result\<close>; \<open>Result_None\<close> is \<^verbatim>\<open>Result::None\<close>.\<close>

datatype Result = BlackWin | WhiteWin | Draw | Result_None

text \<open>\<^verbatim>\<open>ResultReason\<close>, in the order of the enum; \<open>Reason_None\<close> is \<^verbatim>\<open>ResultReason::None\<close>.\<close>

datatype ResultReason =
  Normal | OutOfTime | MaterialImbalance | EasyFill | Gamelength | IllegalMove | EngineCrash
  | Reason_None

definition make_win_for :: "Side \<Rightarrow> Result" where
  "make_win_for s = (if s = Black then BlackWin else WhiteWin)"

datatype Type = Time | Movetime | Depth | Nodes | Infinite

text \<open>The fields of \<^verbatim>\<open>SearchSettings\<close> that the drivers read.\<close>

record SearchSettings =
  type :: Type
  btime :: int
  wtime :: int
  binc :: int
  winc :: int
  movetime :: int

text \<open>The threshold of the material rule: a lead in pieces and a number of half-moves.\<close>

record MaterialRule =
  pieces :: int
  plies :: int

record AdjudicationSettings =
  material :: "MaterialRule option"
  easyfill :: bool
  gamelength :: "int option"
  timeout_buffer :: int

record EngineSettings =
  id_e :: nat
  name :: string

record GameSettings =
  engine1 :: EngineSettings
  engine2 :: EngineSettings
  fen :: string

text \<open>
  What the drivers call on a position, on a move string and on the adjudicator.
  \<open>parse_move\<close> is \<open>None\<close> where the source's \<^verbatim>\<open>parse_move\<close> throws.
  \<open>black_count\<close> and \<open>white_count\<close> are \<^verbatim>\<open>get_black().count()\<close> and
  \<^verbatim>\<open>get_white().count()\<close>; \<open>plies_played\<close> is the number of half-moves played to
  reach the position.
\<close>

record ('pos, 'mv) Lib =
  Position :: "string \<Rightarrow> 'pos"
  Position_default :: "'pos"
  get_turn :: "'pos \<Rightarrow> Side"
  is_gameover :: "'pos \<Rightarrow> bool"
  is_legal_move :: "'pos \<Rightarrow> 'mv \<Rightarrow> bool"
  makemove :: "'pos \<Rightarrow> 'mv \<Rightarrow> 'pos"
  get_result :: "'pos \<Rightarrow> Result"
  get_fen :: "'pos \<Rightarrow> string"
  black_count :: "'pos \<Rightarrow> int"
  white_count :: "'pos \<Rightarrow> int"
  plies_played :: "'pos \<Rightarrow> int"
  parse_move :: "string \<Rightarrow> 'mv option"
  can_adjudicate_material :: "'pos \<Rightarrow> MaterialRule \<Rightarrow> bool"
  can_adjudicate_easyfill :: "'pos \<Rightarrow> bool"
  can_adjudicate_gamelength :: "'pos \<Rightarrow> int \<Rightarrow> bool"

text \<open>
  One answer to a move request: \<open>Bestmove movestr diff\<close> is the token \<^verbatim>\<open>go\<close> returned
  and the milliseconds measured from \<^verbatim>\<open>t0\<close> to \<^verbatim>\<open>t1\<close>; \<open>EngineFailure\<close> is an
  exception thrown by \<^verbatim>\<open>position\<close>, \<^verbatim>\<open>isready\<close> or \<^verbatim>\<open>go\<close>.
  \<open>handshake\<close> tells whether the four calls before the loop (\<^verbatim>\<open>newgame\<close> and
  \<^verbatim>\<open>isready\<close> on both engines) return; \<open>answers\<close> are the answers to the move
  requests in the order the driver makes them. When the answers are used up the engine
  asked next never answers, and \<^verbatim>\<open>go\<close> blocks for ever.
\<close>

datatype Response = Bestmove string int | EngineFailure

record Engines =
  handshake :: bool
  answers :: "Response list"

text \<open>How a statement sequence ends: it runs to its end, it leaves the loop, it throws.\<close>

datatype 'a Flow = Next 'a | Break 'a | Throw 'a

text \<open>
  How a call ends: it returns, it never returns (an engine stays silent), or an
  \<^verbatim>\<open>assert\<close> fails. \<open>Thrown\<close> is used inside the drivers only, for the \<^verbatim>\<open>try\<close> block.
\<close>

datatype 'a Run = Returned 'a | Thrown 'a | Blocked | Assert_failed

section \<open>The game driver of \<^verbatim>\<open>src/core/play.cpp\<close>\<close>

record ('pos, 'mv) GameThingy =
  startpos :: 'pos
  endpos :: 'pos
  result :: Result
  reason :: ResultReason
  history :: "('mv \<times> int) list"

text \<open>
  Modelled from the spec: \<^verbatim>\<open>GameThingy\<close> is declared in \<^verbatim>\<open>play.hpp\<close>, which is not
  among the sources. The outcome "is constructed empty"; the driver itself tests
  \<^verbatim>\<open>info.result == Result::None\<close> to recognise a game that set no result, and the
  driver of \<^verbatim>\<open>src/cli/match/play.cpp\<close> starts from \<^verbatim>\<open>Result::None\<close> and
  \<^verbatim>\<open>ResultReason::None\<close>.
\<close>

definition GameThingy_default :: "('pos, 'mv) Lib \<Rightarrow> ('pos, 'mv) GameThingy" where
  "GameThingy_default L =
     \<lparr>startpos = Position_default L, endpos = Position_default L, result = Result_None,
      reason = Reason_None, history = []\<rparr>"

text \<open>The local variables of \<^verbatim>\<open>play\<close>, and what it has printed.\<close>

record ('pos, 'mv) Vars =
  info :: "('pos, 'mv) GameThingy"
  pos :: 'pos
  game_clock :: SearchSettings
  ply_count :: int
  cout :: string

definition set_result ::
  "Result \<Rightarrow> ResultReason \<Rightarrow> ('pos, 'mv) Vars \<Rightarrow> ('pos, 'mv) Vars" where
  "set_result r why v = v\<lparr>info := (info v)\<lparr>result := r, reason := why\<rparr>\<rparr>"

text \<open>Lines 44, 52 and 59: the conditions of the three adjudication rules.\<close>

definition material_rule :: "('pos, 'mv) Lib \<Rightarrow> AdjudicationSettings \<Rightarrow> 'pos \<Rightarrow> bool" where
  "material_rule L adjudication p =
     (case material adjudication of None \<Rightarrow> False | Some m \<Rightarrow> can_adjudicate_material L p m)"

definition easyfill_rule :: "('pos, 'mv) Lib \<Rightarrow> AdjudicationSettings \<Rightarrow> 'pos \<Rightarrow> bool" where
  "easyfill_rule L adjudication p = (easyfill adjudication \<and> can_adjudicate_easyfill L p)"

definition gamelength_rule :: "('pos, 'mv) Lib \<Rightarrow> AdjudicationSettings \<Rightarrow> 'pos \<Rightarrow> bool" where
  "gamelength_rule L adjudication p =
     (case gamelength adjudication of None \<Rightarrow> False | Some n \<Rightarrow> can_adjudicate_gamelength L p n)"

text \<open>Lines 43-63: the three rules in the order of the source; \<open>Some\<close> is a \<^verbatim>\<open>break\<close>.\<close>

definition adjudicate ::
  "('pos, 'mv) Lib \<Rightarrow> AdjudicationSettings \<Rightarrow> ('pos, 'mv) Vars \<Rightarrow> ('pos, 'mv) Vars option" where
  "adjudicate L adjudication v =
     (if material_rule L adjudication (pos v)
      then Some (set_result (make_win_for (get_turn L (pos v))) MaterialImbalance v)
      else if easyfill_rule L adjudication (pos v)
      then Some (set_result (make_win_for (not_side (get_turn L (pos v)))) EasyFill v)
      else if gamelength_rule L adjudication (pos v)
      then Some (set_result Draw Gamelength v)
      else None)"

text \<open>Lines 85-92: the inner \<^verbatim>\<open>try\<close>; \<open>None\<close> is its \<^verbatim>\<open>catch\<close>.\<close>

definition legal_move :: "('pos, 'mv) Lib \<Rightarrow> 'pos \<Rightarrow> string \<Rightarrow> 'mv option" where
  "legal_move L p movestr =
     (case parse_move L movestr of None \<Rightarrow> None
      | Some move \<Rightarrow> if \<not> is_legal_move L p move then None else Some move)"

definition quote :: string where
  "quote = [CHR 0x22]"

definition newline :: string where
  "newline = [CHR 0x0A]"

text \<open>Lines 96-98.\<close>

definition illegal_move_message ::
  "('pos, 'mv) Lib \<Rightarrow> GameSettings \<Rightarrow> 'pos \<Rightarrow> string \<Rightarrow> string" where
  "illegal_move_message L game p movestr =
     ''Illegal move '' @ quote @ movestr @ quote @ '' played by ''
     @ (if get_turn L p = Black then name (engine1 game) else name (engine2 game))
     @ newline @ newline"

text \<open>Lines 108-114.\<close>

definition update_clock ::
  "('pos, 'mv) Lib \<Rightarrow> SearchSettings \<Rightarrow> int \<Rightarrow> ('pos, 'mv) Vars \<Rightarrow> ('pos, 'mv) Vars" where
  "update_clock L tc diff v =
     (if type tc = Time then
        (if get_turn L (pos v) = Black
         then v\<lparr>game_clock := (game_clock v)\<lparr>btime := btime (game_clock v) - diff\<rparr>\<rparr>
         else v\<lparr>game_clock := (game_clock v)\<lparr>wtime := wtime (game_clock v) - diff\<rparr>\<rparr>)
      else v)"

text \<open>Lines 117-133: the result of a game lost on time, if it is.\<close>

definition out_of_time ::
  "('pos, 'mv) Lib \<Rightarrow> AdjudicationSettings \<Rightarrow> SearchSettings \<Rightarrow> int \<Rightarrow> ('pos, 'mv) Vars
   \<Rightarrow> Result option" where
  "out_of_time L adjudication tc diff v =
     (if type tc = Movetime then
        (if diff > movetime (game_clock v) + timeout_buffer adjudication
         then Some (make_win_for (not_side (get_turn L (pos v))))
         else None)
      else if type tc = Time then
        (if btime (game_clock v) \<le> 0 then Some WhiteWin
         else if wtime (game_clock v) \<le> 0 then Some BlackWin
         else None)
      else None)"

text \<open>Lines 136-142.\<close>

definition increments ::
  "('pos, 'mv) Lib \<Rightarrow> SearchSettings \<Rightarrow> ('pos, 'mv) Vars \<Rightarrow> ('pos, 'mv) Vars" where
  "increments L tc v =
     (if type tc = Time then
        (if get_turn L (pos v) = Black
         then v\<lparr>game_clock := (game_clock v)\<lparr>btime := btime (game_clock v) + binc tc\<rparr>\<rparr>
         else v\<lparr>game_clock := (game_clock v)\<lparr>wtime := wtime (game_clock v) + winc tc\<rparr>\<rparr>)
      else v)"

text \<open>
  Lines 65-144: the loop body from the move request on, for one answer of the engine
  to move.
\<close>

definition request ::
  "('pos, 'mv) Lib \<Rightarrow> AdjudicationSettings \<Rightarrow> SearchSettings \<Rightarrow> GameSettings \<Rightarrow> Response
   \<Rightarrow> ('pos, 'mv) Vars \<Rightarrow> ('pos, 'mv) Vars Flow" where
  "request L adjudication tc game r v =
     (case r of
        EngineFailure \<Rightarrow> Throw v
      | Bestmove movestr diff \<Rightarrow>
          (case legal_move L (pos v) movestr of
             None \<Rightarrow>
               Break ((set_result (make_win_for (not_side (get_turn L (pos v)))) IllegalMove v)
                        \<lparr>cout := cout v @ illegal_move_message L game (pos v) movestr\<rparr>)
           | Some move \<Rightarrow>
               (let v1 = v\<lparr>ply_count := ply_count v + 1\<rparr>;
                    v2 = v1\<lparr>info := (info v1)\<lparr>history := history (info v1) @ [(move, diff)]\<rparr>\<rparr>;
                    v3 = update_clock L tc diff v2
                in case out_of_time L adjudication tc diff v3 of
                     Some r \<Rightarrow> Break (set_result r OutOfTime v3)
                   | None \<Rightarrow>
                       (let v4 = increments L tc v3
                        in Next (v4\<lparr>pos := makemove L (pos v4) move\<rparr>)))))"

text \<open>
  Lines 42-145: the loop. A pass first tests the loop condition, then the adjudication
  rules, and only then asks the engine to move.
\<close>

fun play_loop ::
  "('pos, 'mv) Lib \<Rightarrow> AdjudicationSettings \<Rightarrow> SearchSettings \<Rightarrow> GameSettings \<Rightarrow> Response list
   \<Rightarrow> ('pos, 'mv) Vars \<Rightarrow> ('pos, 'mv) Vars Run" where
  "play_loop L adjudication tc game rs v =
     (if is_gameover L (pos v) then Returned v
      else case adjudicate L adjudication v of
             Some v' \<Rightarrow> Returned v'
           | None \<Rightarrow>
               (case rs of
                  [] \<Rightarrow> Blocked
                | r # rs' \<Rightarrow>
                    (case request L adjudication tc game r v of
                       Next v' \<Rightarrow> play_loop L adjudication tc game rs' v'
                     | Break v' \<Rightarrow> Returned v'
                     | Throw v' \<Rightarrow> Thrown v')))"

text \<open>Lines 26-32: the variables when the \<^verbatim>\<open>try\<close> block is entered.\<close>

definition initial ::
  "('pos, 'mv) Lib \<Rightarrow> SearchSettings \<Rightarrow> GameSettings \<Rightarrow> ('pos, 'mv) Vars" where
  "initial L tc game =
     (let pos0 = Position L (fen game)
      in \<lparr>info = (GameThingy_default L)\<lparr>startpos := pos0\<rparr>, pos = pos0, game_clock = tc,
          ply_count = 0, cout = []\<rparr>)"

text \<open>Lines 146-149: the outer \<^verbatim>\<open>catch\<close>.\<close>

definition engine_crash :: "('pos, 'mv) Lib \<Rightarrow> ('pos, 'mv) Vars \<Rightarrow> ('pos, 'mv) Vars" where
  "engine_crash L v = set_result (make_win_for (not_side (get_turn L (pos v)))) EngineCrash v"

text \<open>Lines 151-156.\<close>

definition finish :: "('pos, 'mv) Lib \<Rightarrow> ('pos, 'mv) Vars \<Rightarrow> ('pos, 'mv) Vars" where
  "finish L v =
     (let v1 = (if result (info v) = Result_None
                then v\<lparr>info := (info v)\<lparr>result := get_result L (pos v)\<rparr>\<rparr> else v)
      in v1\<lparr>info := (info v1)\<lparr>endpos := pos v1\<rparr>\<rparr>)"

text \<open>
  \<^verbatim>\<open>play\<close>. The function returns \<open>info\<close>; the model returns all variables, so that
  the final \<open>ply_count\<close> and the printed text can be stated too.
\<close>

definition after_try :: "('pos, 'mv) Lib \<Rightarrow> ('pos, 'mv) Vars Run \<Rightarrow> ('pos, 'mv) Vars Run" where
  "after_try L r =
     (case r of
        Returned v \<Rightarrow> Returned (finish L v)
      | Thrown v \<Rightarrow> Returned (finish L (engine_crash L v))
      | Blocked \<Rightarrow> Blocked
      | Assert_failed \<Rightarrow> Assert_failed)"

definition play ::
  "('pos, 'mv) Lib \<Rightarrow> AdjudicationSettings \<Rightarrow> SearchSettings \<Rightarrow> GameSettings \<Rightarrow> Engines
   \<Rightarrow> ('pos, 'mv) Vars Run" where
  "play L adjudication tc game engines =
     (if fen game = [] then Assert_failed
      else if \<not> id_e (engine1 game) \<noteq> id_e (engine2 game) then Assert_failed
      else after_try L
        (if handshake engines
         then play_loop L adjudication tc game (answers engines) (initial L tc game)
         else Thrown (initial L tc game)))"

text \<open>
  The variables at the head of the loop after the answers \<open>rs\<close> have all been accepted
  as moves and played: \<open>None\<close> when the loop is left before.
\<close>

fun advance ::
  "('pos, 'mv) Lib \<Rightarrow> AdjudicationSettings \<Rightarrow> SearchSettings \<Rightarrow> GameSettings \<Rightarrow> Response list
   \<Rightarrow> ('pos, 'mv) Vars \<Rightarrow> ('pos, 'mv) Vars option" where
  "advance L adjudication tc game [] v = Some v"
| "advance L adjudication tc game (r # rs) v =
     (if is_gameover L (pos v) then None
      else case adjudicate L adjudication v of
             Some v' \<Rightarrow> None
           | None \<Rightarrow>
               (case request L adjudication tc game r v of
                  Next v' \<Rightarrow> advance L adjudication tc game rs v'
                | Break v' \<Rightarrow> None
                | Throw v' \<Rightarrow> None))"

text \<open>The moves of a history, played one after the other from a position.\<close>

definition replay :: "('pos, 'mv) Lib \<Rightarrow> 'pos \<Rightarrow> ('mv \<times> int) list \<Rightarrow> 'pos" where
  "replay L p h = foldl (makemove L) p (map fst h)"

text \<open>The remaining time and the increment of a side.\<close>

definition clock_of :: "Side \<Rightarrow> SearchSettings \<Rightarrow> int" where
  "clock_of s c = (if s = Black then btime c else wtime c)"

definition increment_of :: "Side \<Rightarrow> SearchSettings \<Rightarrow> int" where
  "increment_of s c = (if s = Black then binc c else winc c)"

section \<open>The game driver of \<^verbatim>\<open>src/cli/match/play.cpp\<close>\<close>

text \<open>
  The PGN of \<^verbatim>\<open>libataxx/pgn.hpp\<close>, as far as the driver fills it: the header entries
  in the order they are added, the side that moves first, and the main line, each node
  with its move and its comments. \<^verbatim>\<open>node\<close> always is the node added last.
\<close>

record 'mv PGN =
  header :: "(string \<times> string) list"
  black_first :: bool
  mainline :: "('mv \<times> string list) list"

definition add :: "string \<Rightarrow> string \<Rightarrow> 'mv PGN \<Rightarrow> 'mv PGN" where
  "add key val p = p\<lparr>header := header p @ [(key, val)]\<rparr>"

definition add_mainline :: "'mv \<Rightarrow> 'mv PGN \<Rightarrow> 'mv PGN" where
  "add_mainline move p = p\<lparr>mainline := mainline p @ [(move, [])]\<rparr>"

text \<open>A comment goes to the node added last; the driver adds none before the first move.\<close>

definition add_comment :: "string \<Rightarrow> 'mv PGN \<Rightarrow> 'mv PGN" where
  "add_comment c p =
     (case rev (mainline p) of
        [] \<Rightarrow> p
      | (move, cs) # earlier \<Rightarrow> p\<lparr>mainline := rev earlier @ [(move, cs @ [c])]\<rparr>)"

text \<open>\<^verbatim>\<open>std::to_string\<close> on an integer.\<close>

fun to_string_nat :: "nat \<Rightarrow> string" where
  "to_string_nat n =
     (if n < 10 then [''0123456789'' ! n]
      else to_string_nat (n div 10) @ [''0123456789'' ! (n mod 10)])"

definition to_string :: "int \<Rightarrow> string" where
  "to_string i = (if i < 0 then ''-'' @ to_string_nat (nat (- i)) else to_string_nat (nat i))"

text \<open>The fields of \<^verbatim>\<open>Settings\<close> that the driver reads.\<close>

record Settings =
  pgn_event :: string
  colour1 :: string
  colour2 :: string
  tc_cli :: SearchSettings
  adjudicate_material :: "MaterialRule option"
  adjudicate_easyfill :: bool
  adjudicate_gamelength :: "int option"
  timeout_buffer_cli :: int
  pgn_verbose :: bool

text \<open>
  The local variables of this \<^verbatim>\<open>play\<close>, and what it has printed. \<^verbatim>\<open>ply_count\<close>,
  \<^verbatim>\<open>btime\<close> and \<^verbatim>\<open>wtime\<close> are declared \<^verbatim>\<open>int\<close> (lines 53-55).
\<close>

record ('pos, 'mv) Vars_cli =
  pos_cli :: 'pos
  pgn :: "'mv PGN"
  ply_count_cli :: "32 word"
  btime_cli :: "32 word"
  wtime_cli :: "32 word"
  result_cli :: Result
  result_reason :: ResultReason
  movestr :: string
  cout_cli :: string

text \<open>Lines 69-89.\<close>

definition adjudicate_cli ::
  "('pos, 'mv) Lib \<Rightarrow> Settings \<Rightarrow> ('pos, 'mv) Vars_cli \<Rightarrow> ('pos, 'mv) Vars_cli option" where
  "adjudicate_cli L settings v =
     (if (case adjudicate_material settings of None \<Rightarrow> False
          | Some m \<Rightarrow> can_adjudicate_material L (pos_cli v) m)
      then Some (v\<lparr>result_cli := make_win_for (get_turn L (pos_cli v)),
                   result_reason := MaterialImbalance\<rparr>)
      else if adjudicate_easyfill settings \<and> can_adjudicate_easyfill L (pos_cli v)
      then Some (v\<lparr>result_cli := make_win_for (not_side (get_turn L (pos_cli v))),
                   result_reason := EasyFill\<rparr>)
      else if (case adjudicate_gamelength settings of None \<Rightarrow> False
               | Some n \<Rightarrow> can_adjudicate_gamelength L (pos_cli v) n)
      then Some (v\<lparr>result_cli := Draw, result_reason := Gamelength\<rparr>)
      else None)"

text \<open>
  Lines 145-151. \<^verbatim>\<open>btime -= diff.count()\<close> subtracts in the 64-bit type of
  \<^verbatim>\<open>diff.count()\<close> and narrows the difference to \<^verbatim>\<open>int\<close>.
\<close>

definition update_clock_cli ::
  "('pos, 'mv) Lib \<Rightarrow> Settings \<Rightarrow> int \<Rightarrow> ('pos, 'mv) Vars_cli \<Rightarrow> ('pos, 'mv) Vars_cli" where
  "update_clock_cli L settings diff v =
     (if type (tc_cli settings) = Time then
        (if get_turn L (pos_cli v) = Black
         then v\<lparr>btime_cli := word_of_int (sint (btime_cli v) - diff)\<rparr>
         else v\<lparr>wtime_cli := word_of_int (sint (wtime_cli v) - diff)\<rparr>)
      else v)"

text \<open>Lines 154-170.\<close>

definition out_of_time_cli ::
  "('pos, 'mv) Lib \<Rightarrow> Settings \<Rightarrow> int \<Rightarrow> ('pos, 'mv) Vars_cli \<Rightarrow> Result option" where
  "out_of_time_cli L settings diff v =
     (if type (tc_cli settings) = Movetime then
        (if diff > movetime (tc_cli settings) + timeout_buffer_cli settings
         then Some (make_win_for (not_side (get_turn L (pos_cli v))))
         else None)
      else if type (tc_cli settings) = Time then
        (if sint (btime_cli v) \<le> 0 then Some WhiteWin
         else if sint (wtime_cli v) \<le> 0 then Some BlackWin
         else None)
      else None)"

text \<open>Lines 173-179; the sum is narrowed to \<^verbatim>\<open>int\<close>.\<close>

definition increments_cli ::
  "('pos, 'mv) Lib \<Rightarrow> Settings \<Rightarrow> ('pos, 'mv) Vars_cli \<Rightarrow> ('pos, 'mv) Vars_cli" where
  "increments_cli L settings v =
     (if type (tc_cli settings) = Time then
        (if get_turn L (pos_cli v) = Black
         then v\<lparr>btime_cli := word_of_int (sint (btime_cli v) + binc (tc_cli settings))\<rparr>
         else v\<lparr>wtime_cli := word_of_int (sint (wtime_cli v) + winc (tc_cli settings))\<rparr>)
      else v)"

text \<open>Lines 182-188.\<close>

definition time_left_comment ::
  "('pos, 'mv) Lib \<Rightarrow> Settings \<Rightarrow> ('pos, 'mv) Vars_cli \<Rightarrow> ('pos, 'mv) Vars_cli" where
  "time_left_comment L settings v =
     (if pgn_verbose settings \<and> type (tc_cli settings) = Time then
        (if get_turn L (pos_cli v) = Black
         then v\<lparr>pgn := add_comment (''time left '' @ to_string (sint (btime_cli v)) @ ''ms'')
                          (pgn v)\<rparr>
         else v\<lparr>pgn := add_comment (''time left '' @ to_string (sint (wtime_cli v)) @ ''ms'')
                          (pgn v)\<rparr>)
      else v)"

text \<open>Lines 91-190: the loop body from the move request on.\<close>

definition request_cli ::
  "('pos, 'mv) Lib \<Rightarrow> Settings \<Rightarrow> GameSettings \<Rightarrow> Response \<Rightarrow> ('pos, 'mv) Vars_cli
   \<Rightarrow> ('pos, 'mv) Vars_cli Flow" where
  "request_cli L settings game r v =
     (case r of
        EngineFailure \<Rightarrow> Throw v
      | Bestmove token diff \<Rightarrow>
          (let v0 = v\<lparr>movestr := token\<rparr>
           in case legal_move L (pos_cli v0) token of
                None \<Rightarrow>
                  Break (v0\<lparr>result_reason := IllegalMove,
                            result_cli := make_win_for (not_side (get_turn L (pos_cli v0))),
                            cout_cli := cout_cli v0
                              @ illegal_move_message L game (pos_cli v0) token\<rparr>)
              | Some move \<Rightarrow>
                  (let v1 = v0\<lparr>ply_count_cli := ply_count_cli v0 + 1\<rparr>;
                       v2 = v1\<lparr>pgn := add_mainline move (pgn v1)\<rparr>;
                       v3 = (if pgn_verbose settings
                             then v2\<lparr>pgn := add_comment (''movetime '' @ to_string diff) (pgn v2)\<rparr>
                             else v2);
                       v4 = update_clock_cli L settings diff v3
                   in case out_of_time_cli L settings diff v4 of
                        Some r \<Rightarrow> Break (v4\<lparr>result_reason := OutOfTime, result_cli := r\<rparr>)
                      | None \<Rightarrow>
                          (let v5 = increments_cli L settings v4;
                               v6 = time_left_comment L settings v5
                           in Next (v6\<lparr>pos_cli := makemove L (pos_cli v6) move\<rparr>)))))"

text \<open>Lines 68-191.\<close>

fun play_loop_cli ::
  "('pos, 'mv) Lib \<Rightarrow> Settings \<Rightarrow> GameSettings \<Rightarrow> Response list \<Rightarrow> ('pos, 'mv) Vars_cli
   \<Rightarrow> ('pos, 'mv) Vars_cli Run" where
  "play_loop_cli L settings game rs v =
     (if is_gameover L (pos_cli v) then Returned v
      else case adjudicate_cli L settings v of
             Some v' \<Rightarrow> Returned v'
           | None \<Rightarrow>
               (case rs of
                  [] \<Rightarrow> Blocked
                | r # rs' \<Rightarrow>
                    (case request_cli L settings game r v of
                       Next v' \<Rightarrow> play_loop_cli L settings game rs' v'
                     | Break v' \<Rightarrow> Returned v'
                     | Throw v' \<Rightarrow> Thrown v')))"

text \<open>Lines 41-58.\<close>

definition initial_cli ::
  "('pos, 'mv) Lib \<Rightarrow> Settings \<Rightarrow> GameSettings \<Rightarrow> ('pos, 'mv) Vars_cli" where
  "initial_cli L settings game =
     (let pos0 = Position L (fen game);
          pgn0 = \<lparr>header = [], black_first = False, mainline = []\<rparr>;
          pgn1 = add ''Event'' (pgn_event settings) pgn0;
          pgn2 = add (colour1 settings) (name (engine1 game)) pgn1;
          pgn3 = add (colour2 settings) (name (engine2 game)) pgn2;
          pgn4 = add ''FEN'' (fen game) pgn3;
          pgn5 = pgn4\<lparr>black_first := (get_turn L pos0 = Black)\<rparr>
      in \<lparr>pos_cli = pos0, pgn = pgn5, ply_count_cli = 0,
          btime_cli = word_of_int (btime (tc_cli settings)),
          wtime_cli = word_of_int (wtime (tc_cli settings)), result_cli = Result_None,
          result_reason = Reason_None, movestr = [], cout_cli = []\<rparr>)"

text \<open>Lines 192-195.\<close>

definition engine_crash_cli ::
  "('pos, 'mv) Lib \<Rightarrow> ('pos, 'mv) Vars_cli \<Rightarrow> ('pos, 'mv) Vars_cli" where
  "engine_crash_cli L v =
     v\<lparr>result_reason := EngineCrash,
       result_cli := make_win_for (not_side (get_turn L (pos_cli v)))\<rparr>"

text \<open>Lines 203-220.\<close>

definition result_headers :: "GameSettings \<Rightarrow> Result \<Rightarrow> 'mv PGN \<Rightarrow> 'mv PGN" where
  "result_headers game r p =
     (case r of
        BlackWin \<Rightarrow>
          add ''Loser'' (name (engine2 game))
            (add ''Winner'' (name (engine1 game)) (add ''Result'' ''1-0'' p))
      | WhiteWin \<Rightarrow>
          add ''Loser'' (name (engine1 game))
            (add ''Winner'' (name (engine2 game)) (add ''Result'' ''0-1'' p))
      | Draw \<Rightarrow> add ''Result'' ''1/2-1/2'' p
      | Result_None \<Rightarrow> add ''Result'' ''*'' p)"

text \<open>Lines 222-242.\<close>

definition reason_header :: "ResultReason \<Rightarrow> string \<Rightarrow> 'mv PGN \<Rightarrow> 'mv PGN" where
  "reason_header why token p =
     (case why of
        Normal \<Rightarrow> p
      | OutOfTime \<Rightarrow> add ''Adjudicated'' ''Out of time'' p
      | MaterialImbalance \<Rightarrow> add ''Adjudicated'' ''Material imbalance'' p
      | EasyFill \<Rightarrow> add ''Adjudicated'' ''Easy fill'' p
      | Gamelength \<Rightarrow> add ''Adjudicated'' ''Max game length reached'' p
      | IllegalMove \<Rightarrow> add ''Adjudicated'' (''Illegal move '' @ token) p
      | EngineCrash \<Rightarrow> p
      | Reason_None \<Rightarrow> p)"

text \<open>Lines 244-248.\<close>

definition statistics :: "('pos, 'mv) Lib \<Rightarrow> 'pos \<Rightarrow> 32 word \<Rightarrow> 'mv PGN \<Rightarrow> 'mv PGN" where
  "statistics L p n g =
     (let material_difference = black_count L p - white_count L p
      in add ''Material''
           ((if material_difference \<ge> 0 then ''+'' else []) @ to_string material_difference)
           (add ''Final FEN'' (get_fen L p) (add ''PlyCount'' (to_string (sint n)) g)))"

text \<open>Lines 197-248: from the end of the \<^verbatim>\<open>try\<close> statement to the \<^verbatim>\<open>return\<close>.\<close>

definition finish_cli ::
  "('pos, 'mv) Lib \<Rightarrow> GameSettings \<Rightarrow> ('pos, 'mv) Vars_cli \<Rightarrow> ('pos, 'mv) Vars_cli" where
  "finish_cli L game v =
     (let v1 = (if result_cli v = Result_None then v\<lparr>result_cli := get_result L (pos_cli v)\<rparr>
                else v);
          v2 = v1\<lparr>pgn := result_headers game (result_cli v1) (pgn v1)\<rparr>;
          v3 = v2\<lparr>pgn := reason_header (result_reason v2) (movestr v2) (pgn v2)\<rparr>
      in v3\<lparr>pgn := statistics L (pos_cli v3) (ply_count_cli v3) (pgn v3)\<rparr>)"

text \<open>What a call of this \<^verbatim>\<open>play\<close> gives: the PGN it returns and the text it has printed.\<close>

record 'mv Played =
  returned :: "'mv PGN"
  printed :: string

definition after_try_cli ::
  "('pos, 'mv) Lib \<Rightarrow> GameSettings \<Rightarrow> ('pos, 'mv) Vars_cli Run \<Rightarrow> 'mv Played Run" where
  "after_try_cli L game r =
     (case r of
        Returned v \<Rightarrow>
          (let v' = finish_cli L game v
           in Returned \<lparr>returned = pgn v', printed = cout_cli v'\<rparr>)
      | Thrown v \<Rightarrow>
          (let v' = finish_cli L game (engine_crash_cli L v)
           in Returned \<lparr>returned = pgn v', printed = cout_cli v'\<rparr>)
      | Blocked \<Rightarrow> Blocked
      | Assert_failed \<Rightarrow> Assert_failed)"

text \<open>This \<^verbatim>\<open>play\<close>.\<close>

definition play_cli ::
  "('pos, 'mv) Lib \<Rightarrow> Settings \<Rightarrow> GameSettings \<Rightarrow> Engines \<Rightarrow> 'mv Played Run" where
  "play_cli L settings game engines =
     (if fen game = [] then Assert_failed
      else if \<not> id_e (engine1 game) \<noteq> id_e (engine2 game) then Assert_failed
      else after_try_cli L game
        (if handshake engines
         then play_loop_cli L settings game (answers engines) (initial_cli L settings game)
         else Thrown (initial_cli L settings game)))"

text \<open>The counterpart of \<open>advance\<close> for this driver.\<close>

fun advance_cli ::
  "('pos, 'mv) Lib \<Rightarrow> Settings \<Rightarrow> GameSettings \<Rightarrow> Response list \<Rightarrow> ('pos, 'mv) Vars_cli
   \<Rightarrow> ('pos, 'mv) Vars_cli option" where
  "advance_cli L settings game [] v = Some v"
| "advance_cli L settings game (r # rs) v =
     (if is_gameover L (pos_cli v) then None
      else case adjudicate_cli L settings v of
             Some v' \<Rightarrow> None
           | None \<Rightarrow>
               (case request_cli L settings game r v of
                  Next v' \<Rightarrow> advance_cli L settings game rs v'
                | Break v' \<Rightarrow> None
                | Throw v' \<Rightarrow> None))"

section \<open>The round-robin schedule generator\<close>

text \<open>
  Modelled from the spec: \<^verbatim>\<open>RoundRobinGenerator\<close> is declared in
  \<^verbatim>\<open>core/tournament/roundrobin.hpp\<close>, which is not among the sources; only its test
  \<^verbatim>\<open>tests/core/tournament/roundrobin.cpp\<close> is. The definitions follow the component
  design of the spec:
  \<^item> the pairings are all pairs \<open>(i, j)\<close> with \<open>i < j\<close>, in lexicographic order;
  \<^item> a pairing gives \<open>num_games\<close> consecutive games; the opening of its \<open>k\<close>-th game
    is \<open>k * num_openings div num_games\<close> when \<open>num_games \<ge> num_openings\<close>, else
    \<open>k\<close>, clamped below \<open>num_openings\<close>;
  \<^item> with \<open>repeat\<close>, each game is immediately followed by the game with the colours
    swapped and the same opening, so the games of a pairing come in couples;
  \<^item> \<open>expected\<close> is the number of games in one full cycle;
  \<^item> after \<open>expected\<close> games the generator starts again from the first game, and
    \<open>game_id\<close> counts all calls of \<open>next\<close> from 0.
  For \<open>expected\<close> the spec has a second sentence, the number of pairings times
  \<open>num_openings\<close>. The two agree when \<open>num_games = num_openings\<close>; where they differ
  the test decides for the first: its Test 2 requires \<open>expected() == 4\<close> for 2 players,
  4 games and 2 openings. The model is checked against all four test cases below.
  Where no game is expected \<open>next\<close> gives \<open>None\<close>.
\<close>

text \<open>Modelled from the spec: a schedule entry.\<close>

record GameInfo =
  game_id :: nat
  opening_id :: nat
  player1_idx :: nat
  player2_idx :: nat

text \<open>
  Modelled from the spec: the constructor parameters, and the number of calls of
  \<open>next\<close> made so far as the cursor.
\<close>

record RoundRobinGenerator =
  num_players :: nat
  num_games :: nat
  num_openings :: nat
  repeat :: bool
  calls :: nat

text \<open>Modelled from the spec: the constructor.\<close>

definition RoundRobinGenerator_new :: "nat \<Rightarrow> nat \<Rightarrow> nat \<Rightarrow> bool \<Rightarrow> RoundRobinGenerator" where
  "RoundRobinGenerator_new players games openings rep =
     \<lparr>num_players = players, num_games = games, num_openings = openings, repeat = rep,
      calls = 0\<rparr>"

text \<open>Modelled from the spec: all pairs \<open>(i, j)\<close> with \<open>i < j\<close>, in lexicographic order.\<close>

definition pairings :: "nat \<Rightarrow> (nat \<times> nat) list" where
  "pairings n = concat (map (\<lambda>i. map (\<lambda>j. (i, j)) [i + 1 ..< n]) [0 ..< n])"

text \<open>Modelled from the spec: the opening of the \<open>k\<close>-th game of a pairing.\<close>

definition opening_index :: "RoundRobinGenerator \<Rightarrow> nat \<Rightarrow> nat" where
  "opening_index g k =
     min (if num_games g \<ge> num_openings g then k * num_openings g div num_games g else k)
         (num_openings g - 1)"

text \<open>
  Modelled from the spec: the \<open>k\<close>-th game of the pairing \<open>(i, j)\<close>, as opening, first
  player, second player. With \<open>repeat\<close> the games at odd \<open>k\<close> are the games before
  them with the colours swapped.
\<close>

definition pairing_game :: "RoundRobinGenerator \<Rightarrow> nat \<times> nat \<Rightarrow> nat \<Rightarrow> nat \<times> nat \<times> nat" where
  "pairing_game g p k =
     (if repeat g \<and> odd k then (opening_index g (k - 1), snd p, fst p)
      else (opening_index g k, fst p, snd p))"

text \<open>Modelled from the spec: the games of one full cycle, pairing after pairing.\<close>

definition schedule :: "RoundRobinGenerator \<Rightarrow> (nat \<times> nat \<times> nat) list" where
  "schedule g =
     concat (map (\<lambda>p. map (pairing_game g p) [0 ..< num_games g]) (pairings (num_players g)))"

text \<open>Modelled from the spec: \<^verbatim>\<open>expected()\<close>, the number of games in one full cycle.\<close>

definition expected :: "RoundRobinGenerator \<Rightarrow> nat" where
  "expected g = length (schedule g)"

text \<open>
  Modelled from the spec: the game that the call number \<open>c\<close> of \<^verbatim>\<open>next()\<close> returns,
  counting from 0: the game of the cycle at \<open>c\<close> modulo \<open>expected\<close>, with \<open>c\<close> as its
  \<open>game_id\<close>.
\<close>

definition game_at :: "RoundRobinGenerator \<Rightarrow> nat \<Rightarrow> GameInfo option" where
  "game_at g c =
     (if expected g = 0 then None
      else (case schedule g ! (c mod expected g) of
              (opening, p1, p2) \<Rightarrow>
                Some \<lparr>game_id = c, opening_id = opening, player1_idx = p1, player2_idx = p2\<rparr>))"

text \<open>Modelled from the spec: \<^verbatim>\<open>next()\<close> returns the game at the cursor and advances it.\<close>

definition next_game :: "RoundRobinGenerator \<Rightarrow> GameInfo option \<times> RoundRobinGenerator" where
  "next_game g = (game_at g (calls g), g\<lparr>calls := calls g + 1\<rparr>)"

text \<open>The results of \<open>n\<close> successive calls of \<open>next\<close>.\<close>

fun next_games :: "nat \<Rightarrow> RoundRobinGenerator \<Rightarrow> GameInfo option list" where
  "next_games 0 g = []"
| "next_games (Suc n) g = fst (next_game g) # next_games n (snd (next_game g))"

text \<open>The result of the call of \<open>next\<close> that follows \<open>n\<close> earlier calls.\<close>

fun nth_game :: "nat \<Rightarrow> RoundRobinGenerator \<Rightarrow> GameInfo option" where
  "nth_game 0 g = fst (next_game g)"
| "nth_game (Suc n) g = nth_game n (snd (next_game g))"

text \<open>Two games with the same opening and the colours swapped.\<close>

definition colour_swapped :: "GameInfo \<Rightarrow> GameInfo \<Rightarrow> bool" where
  "colour_swapped a b =
     (opening_id b = opening_id a \<and> player1_idx b = player2_idx a
      \<and> player2_idx b = player1_idx a)"

text \<open>A row of the test: \<open>GameInfo{id, opening, player1, player2}\<close>.\<close>

definition GameInfo_of :: "nat \<times> nat \<times> nat \<times> nat \<Rightarrow> GameInfo option" where
  "GameInfo_of q =
     (case q of (i, opening, p1, p2) \<Rightarrow>
        Some \<lparr>game_id = i, opening_id = opening, player1_idx = p1, player2_idx = p2\<rparr>)"

section \<open>A small game to run the drivers on\<close>

text \<open>
  A stand-in for the library, used for concrete runs only: a position is the side to
  move, the two piece counts on a board of 49 squares, the half-moves played, and
  whether the side to move is stuck while the other side can fill the board. A move
  gains one or two pieces. The material rule and the game-length rule follow the
  words of the spec: a lead of at least \<open>pieces\<close> after at least \<open>plies\<close> half-moves,
  and at least \<open>n\<close> half-moves played.
\<close>

record Board =
  to_move :: Side
  blacks :: int
  whites :: int
  halfmoves :: int
  stuck :: bool

definition board_move :: "Board \<Rightarrow> int \<Rightarrow> Board" where
  "board_move b k =
     (if to_move b = Black
      then b\<lparr>to_move := White, blacks := blacks b + k, halfmoves := halfmoves b + 1\<rparr>
      else b\<lparr>to_move := Black, whites := whites b + k, halfmoves := halfmoves b + 1\<rparr>)"

definition board_result :: "Board \<Rightarrow> Result" where
  "board_result b =
     (if blacks b > whites b then BlackWin
      else if whites b > blacks b then WhiteWin else Draw)"

text \<open>
  Modelled from the spec: in this stand-in \<open>can_adjudicate_material\<close> is true iff
  \<open>\<bar>black_count - white_count\<bar> \<ge> pieces\<close> and at least \<open>plies\<close> half-moves have been
  played, and \<open>can_adjudicate_gamelength\<close> is true iff at least \<open>n\<close> half-moves have
  been played.
\<close>

definition Counting :: "Board \<Rightarrow> (Board, int) Lib" where
  "Counting start =
     \<lparr>Position = (\<lambda>fen. start),
      Position_default = \<lparr>to_move = Black, blacks = 0, whites = 0, halfmoves = 0, stuck = False\<rparr>,
      get_turn = to_move,
      is_gameover = (\<lambda>b. blacks b = 0 \<or> whites b = 0 \<or> blacks b + whites b \<ge> 49),
      is_legal_move = (\<lambda>b k. (k = 1 \<or> k = 2) \<and> blacks b + whites b + k \<le> 49 \<and> \<not> stuck b),
      makemove = board_move,
      get_result = board_result,
      get_fen = (\<lambda>b. (if to_move b = Black then ''x'' else ''o'')),
      black_count = blacks,
      white_count = whites,
      plies_played = halfmoves,
      parse_move = (\<lambda>s. if s = ''1'' then Some 1 else if s = ''2'' then Some 2 else None),
      can_adjudicate_material =
        (\<lambda>b m. \<bar>blacks b - whites b\<bar> \<ge> pieces m \<and> halfmoves b \<ge> plies m),
      can_adjudicate_easyfill = stuck,
      can_adjudicate_gamelength = (\<lambda>b n. halfmoves b \<ge> n)\<rparr>"

text \<open>Concrete settings, positions and engines for the runs below.\<close>

definition two_engines :: GameSettings where
  "two_engines =
     \<lparr>engine1 = \<lparr>id_e = 0, name = ''alpha''\<rparr>, engine2 = \<lparr>id_e = 1, name = ''beta''\<rparr>,
      fen = ''x5o/7/7/7/7/7/o5x x 0 1''\<rparr>"

definition movetime_100 :: SearchSettings where
  "movetime_100 = \<lparr>type = Movetime, btime = 0, wtime = 0, binc = 0, winc = 0, movetime = 100\<rparr>"

definition no_adjudication :: "int \<Rightarrow> AdjudicationSettings" where
  "no_adjudication buffer =
     \<lparr>material = None, easyfill = False, gamelength = None, timeout_buffer = buffer\<rparr>"

definition start_board :: Board where
  "start_board = \<lparr>to_move = Black, blacks = 2, whites = 2, halfmoves = 0, stuck = False\<rparr>"

definition white_behind :: Board where
  "white_behind = \<lparr>to_move = White, blacks = 10, whites = 2, halfmoves = 20, stuck = False\<rparr>"

definition material_5_10 :: AdjudicationSettings where
  "material_5_10 =
     \<lparr>material = Some \<lparr>pieces = 5, plies = 10\<rparr>, easyfill = False, gamelength = None,
      timeout_buffer = 50\<rparr>"

text \<open>
  Black and White each play a move in time, then Black answers after 200 ms: the
  variables when \<open>play\<close> returns.
\<close>

definition late_third_move :: "(Board, int) Vars" where
  "late_third_move =
     \<lparr>info =
        \<lparr>startpos = start_board,
         endpos = \<lparr>to_move = Black, blacks = 3, whites = 4, halfmoves = 2, stuck = False\<rparr>,
         result = WhiteWin, reason = OutOfTime, history = [(1, 10), (2, 20), (1, 200)]\<rparr>,
      pos = \<lparr>to_move = Black, blacks = 3, whites = 4, halfmoves = 2, stuck = False\<rparr>,
      game_clock = movetime_100, ply_count = 3, cout = []\<rparr>"

text \<open>Two squares are empty and Black fills them.\<close>

definition nearly_full :: Board where
  "nearly_full = \<lparr>to_move = Black, blacks = 24, whites = 23, halfmoves = 45, stuck = False\<rparr>"

definition board_filled :: "(Board, int) Vars" where
  "board_filled =
     \<lparr>info =
        \<lparr>startpos = nearly_full,
         endpos = \<lparr>to_move = White, blacks = 26, whites = 23, halfmoves = 46, stuck = False\<rparr>,
         result = BlackWin, reason = Reason_None, history = [(2, 10)]\<rparr>,
      pos = \<lparr>to_move = White, blacks = 26, whites = 23, halfmoves = 46, stuck = False\<rparr>,
      game_clock = movetime_100, ply_count = 1, cout = []\<rparr>"

text \<open>
  A Fischer clock of one second a side without increment, and the variables after
  Black and White have each moved twice, Black taking 400 ms a move.
\<close>

definition fischer_1000 :: SearchSettings where
  "fischer_1000 = \<lparr>type = Time, btime = 1000, wtime = 1000, binc = 0, winc = 0, movetime = 0\<rparr>"

definition black_clock_zero :: SearchSettings where
  "black_clock_zero = \<lparr>type = Time, btime = 0, wtime = 1000, binc = 0, winc = 0, movetime = 0\<rparr>"

definition white_starts :: Board where
  "white_starts = \<lparr>to_move = White, blacks = 2, whites = 2, halfmoves = 0, stuck = False\<rparr>"

definition four_moves :: "Response list" where
  "four_moves = [Bestmove ''1'' 400, Bestmove ''1'' 50, Bestmove ''1'' 400, Bestmove ''1'' 50]"

definition after_four_moves :: "(Board, int) Vars" where
  "after_four_moves =
     \<lparr>info =
        \<lparr>startpos = start_board,
         endpos = \<lparr>to_move = Black, blacks = 0, whites = 0, halfmoves = 0, stuck = False\<rparr>,
         result = Result_None, reason = Reason_None,
         history = [(1, 400), (1, 50), (1, 400), (1, 50)]\<rparr>,
      pos = \<lparr>to_move = Black, blacks = 4, whites = 4, halfmoves = 4, stuck = False\<rparr>,
      game_clock =
        \<lparr>type = Time, btime = 200, wtime = 900, binc = 0, winc = 0, movetime = 0\<rparr>,
      ply_count = 4, cout = []\<rparr>"

text \<open>
  All three adjudication rules enabled, and positions in which all three, the last two,
  or only the last of them trigger.
\<close>

definition all_rules :: AdjudicationSettings where
  "all_rules =
     \<lparr>material = Some \<lparr>pieces = 5, plies = 10\<rparr>, easyfill = True, gamelength = Some 20,
      timeout_buffer = 50\<rparr>"

definition all_three :: Board where
  "all_three = \<lparr>to_move = White, blacks = 10, whites = 2, halfmoves = 20, stuck = True\<rparr>"

definition stuck_and_late :: Board where
  "stuck_and_late = \<lparr>to_move = White, blacks = 5, whites = 4, halfmoves = 20, stuck = True\<rparr>"

definition late_only :: Board where
  "late_only = \<lparr>to_move = White, blacks = 5, whites = 4, halfmoves = 20, stuck = False\<rparr>"

text \<open>Settings of the command-line driver without adjudication, with a move time of 100 ms.\<close>

definition plain_settings :: Settings where
  "plain_settings =
     \<lparr>pgn_event = ''Match'', colour1 = ''Black'', colour2 = ''White'', tc_cli = movetime_100,
      adjudicate_material = None, adjudicate_easyfill = False, adjudicate_gamelength = None,
      timeout_buffer_cli = 50, pgn_verbose = False\<rparr>"


section \<open>General facts about the driver\<close>

declare play_loop.simps [simp del]

lemma play_loop_advance:
  "advance L adjudication tc game rs v = Some v' \<Longrightarrow>
   play_loop L adjudication tc game (rs @ rest) v = play_loop L adjudication tc game rest v'"
proof (induction rs arbitrary: v)
  case Nil
  then show ?case by simp
next
  case (Cons r rs)
  from Cons.prems have live: "\<not> is_gameover L (pos v)" "adjudicate L adjudication v = None"
    by (auto split: if_splits option.splits)
  from Cons.prems live obtain v1 where
    step: "request L adjudication tc game r v = Next v1"
    and rest: "advance L adjudication tc game rs v1 = Some v'"
    by (auto split: Flow.splits)
  have "play_loop L adjudication tc game ((r # rs) @ rest) v
        = play_loop L adjudication tc game (rs @ rest) v1"
    using live step by (simp add: play_loop.simps [of _ _ _ _ "r # rs @ rest"])
  with Cons.IH [OF rest] show ?case by simp
qed

lemma play_loop_gameover:
  "is_gameover L (pos v) \<Longrightarrow> play_loop L adjudication tc game rs v = Returned v"
  by (simp add: play_loop.simps)

lemma play_loop_adjudicated:
  "\<not> is_gameover L (pos v) \<Longrightarrow> adjudicate L adjudication v = Some v' \<Longrightarrow>
   play_loop L adjudication tc game rs v = Returned v'"
  by (simp add: play_loop.simps)

lemma play_loop_silent:
  "\<not> is_gameover L (pos v) \<Longrightarrow> adjudicate L adjudication v = None \<Longrightarrow>
   play_loop L adjudication tc game [] v = Blocked"
  by (simp add: play_loop.simps)

lemma play_loop_request:
  "\<not> is_gameover L (pos v) \<Longrightarrow> adjudicate L adjudication v = None \<Longrightarrow>
   play_loop L adjudication tc game (r # rs) v =
     (case request L adjudication tc game r v of
        Next v' \<Rightarrow> play_loop L adjudication tc game rs v'
      | Break v' \<Rightarrow> Returned v'
      | Throw v' \<Rightarrow> Thrown v')"
  by (simp add: play_loop.simps [of _ _ _ _ "r # rs"])

text \<open>
  A game whose engines complete the handshake, and whose first answers \<open>rs\<close> are
  accepted and played, goes on from the variables reached with the remaining answers.
\<close>

lemma play_from:
  assumes "fen game \<noteq> []" and "id_e (engine1 game) \<noteq> id_e (engine2 game)"
    and "advance L adjudication tc game rs (initial L tc game) = Some v"
  shows "play L adjudication tc game \<lparr>handshake = True, answers = rs @ rest\<rparr>
         = after_try L (play_loop L adjudication tc game rest v)"
  using assms by (simp add: play_def play_loop_advance)

lemma result_set_result [simp]: "result (info (set_result r why v)) = r"
  and reason_set_result [simp]: "reason (info (set_result r why v)) = why"
  and history_set_result [simp]: "history (info (set_result r why v)) = history (info v)"
  and startpos_set_result [simp]: "startpos (info (set_result r why v)) = startpos (info v)"
  and pos_set_result [simp]: "pos (set_result r why v) = pos v"
  and ply_count_set_result [simp]: "ply_count (set_result r why v) = ply_count v"
  and game_clock_set_result [simp]: "game_clock (set_result r why v) = game_clock v"
  and cout_set_result [simp]: "cout (set_result r why v) = cout v"
  by (simp_all add: set_result_def)

lemma make_win_for_not_None [simp]: "make_win_for s \<noteq> Result_None"
  by (simp add: make_win_for_def)

lemma finish_fields [simp]:
  "reason (info (finish L v)) = reason (info v)"
  "history (info (finish L v)) = history (info v)"
  "startpos (info (finish L v)) = startpos (info v)"
  "endpos (info (finish L v)) = pos v"
  "pos (finish L v) = pos v"
  "ply_count (finish L v) = ply_count v"
  "game_clock (finish L v) = game_clock v"
  "cout (finish L v) = cout v"
  by (simp_all add: finish_def Let_def)

lemma finish_result:
  "result (info (finish L v))
   = (if result (info v) = Result_None then get_result L (pos v) else result (info v))"
  by (simp add: finish_def Let_def)

lemma initial_fields [simp]:
  "pos (initial L tc game) = Position L (fen game)"
  "game_clock (initial L tc game) = tc"
  "ply_count (initial L tc game) = 0"
  "cout (initial L tc game) = []"
  "startpos (info (initial L tc game)) = Position L (fen game)"
  "result (info (initial L tc game)) = Result_None"
  "reason (info (initial L tc game)) = Reason_None"
  "history (info (initial L tc game)) = []"
  by (simp_all add: initial_def Let_def GameThingy_default_def)

lemma Counting_fields [simp]:
  "Position (Counting start) f = start"
  "Position_default (Counting start)
   = \<lparr>to_move = Black, blacks = 0, whites = 0, halfmoves = 0, stuck = False\<rparr>"
  "get_fen (Counting start) b = (if to_move b = Black then ''x'' else ''o'')"
  "get_turn (Counting start) = to_move"
  "is_gameover (Counting start) b = (blacks b = 0 \<or> whites b = 0 \<or> blacks b + whites b \<ge> 49)"
  "is_legal_move (Counting start) b k
   = ((k = 1 \<or> k = 2) \<and> blacks b + whites b + k \<le> 49 \<and> \<not> stuck b)"
  "makemove (Counting start) = board_move"
  "get_result (Counting start) = board_result"
  "black_count (Counting start) = blacks"
  "white_count (Counting start) = whites"
  "plies_played (Counting start) = halfmoves"
  "parse_move (Counting start) s
   = (if s = ''1'' then Some 1 else if s = ''2'' then Some 2 else None)"
  "can_adjudicate_material (Counting start) b m
   = (\<bar>blacks b - whites b\<bar> \<ge> pieces m \<and> halfmoves b \<ge> plies m)"
  "can_adjudicate_easyfill (Counting start) = stuck"
  "can_adjudicate_gamelength (Counting start) b n = (halfmoves b \<ge> n)"
  by (simp_all add: Counting_def)

lemma legal_move_None_iff:
  "legal_move L p token = None \<longleftrightarrow>
   (parse_move L token = None \<or> (\<exists>m. parse_move L token = Some m \<and> \<not> is_legal_move L p m))"
  by (auto simp: legal_move_def split: option.splits)

lemma request_illegal:
  "legal_move L (pos v) token = None \<Longrightarrow>
   request L adjudication tc game (Bestmove token diff) v
   = Break ((set_result (make_win_for (not_side (get_turn L (pos v)))) IllegalMove v)
              \<lparr>cout := cout v @ illegal_move_message L game (pos v) token\<rparr>)"
  by (simp add: request_def)

lemma replay_snoc: "replay L p (h @ [(m, d)]) = makemove L (replay L p h) m"
  by (simp add: replay_def)

lemma adjudicate_Some:
  "adjudicate L adjudication v = Some v' \<Longrightarrow>
   \<exists>r why. v' = set_result r why v \<and> why \<in> {MaterialImbalance, EasyFill, Gamelength}"
  by (auto simp: adjudicate_def split: if_splits)

lemma request_Next:
  assumes "request L adjudication tc game r v = Next v'"
  shows "\<exists>token diff m. r = Bestmove token diff \<and> legal_move L (pos v) token = Some m
           \<and> pos v' = makemove L (pos v) m
           \<and> history (info v') = history (info v) @ [(m, diff)]
           \<and> ply_count v' = ply_count v + 1
           \<and> result (info v') = result (info v) \<and> reason (info v') = reason (info v)
           \<and> startpos (info v') = startpos (info v) \<and> cout v' = cout v
           \<and> type (game_clock v') = type (game_clock v)
           \<and> movetime (game_clock v') = movetime (game_clock v)"
  using assms
  by (auto simp: request_def Let_def update_clock_def increments_def
      split: Response.splits option.splits if_splits)

lemma request_Break:
  assumes "request L adjudication tc game r v = Break v'"
  shows "\<exists>token diff. r = Bestmove token diff \<and>
           ((legal_move L (pos v) token = None \<and> reason (info v') = IllegalMove
             \<and> history (info v') = history (info v) \<and> ply_count v' = ply_count v)
            \<or> (\<exists>m. legal_move L (pos v) token = Some m \<and> reason (info v') = OutOfTime
                 \<and> history (info v') = history (info v) @ [(m, diff)]
                 \<and> ply_count v' = ply_count v + 1))
           \<and> pos v' = pos v \<and> startpos (info v') = startpos (info v)"
  using assms
  by (auto simp: request_def Let_def update_clock_def increments_def
      split: Response.splits option.splits if_splits)

lemma request_Throw:
  "request L adjudication tc game r v = Throw v' \<Longrightarrow> v' = v"
  by (auto simp: request_def Let_def split: Response.splits option.splits)

lemma legal_move_Some:
  "legal_move L p token = Some m \<Longrightarrow> parse_move L token = Some m \<and> is_legal_move L p m"
  by (auto simp: legal_move_def split: option.splits if_splits)


lemma play_loop_invariant:
  assumes inv: "I v"
    and over: "\<And>v. I v \<Longrightarrow> is_gameover L (pos v) \<Longrightarrow> Q v"
    and adj: "\<And>v v'. I v \<Longrightarrow> adjudicate L adjudication v = Some v' \<Longrightarrow> Q v'"
    and nxt: "\<And>v r v'. I v \<Longrightarrow> request L adjudication tc game r v = Next v' \<Longrightarrow> I v'"
    and brk: "\<And>v r v'. I v \<Longrightarrow> request L adjudication tc game r v = Break v' \<Longrightarrow> Q v'"
  shows "(play_loop L adjudication tc game rs v = Returned v' \<longrightarrow> Q v')
         \<and> (play_loop L adjudication tc game rs v = Thrown v' \<longrightarrow> I v')"
  using inv
proof (induction rs arbitrary: v)
  case Nil
  show ?case
  proof (cases "is_gameover L (pos v)")
    case True
    with Nil over show ?thesis by (auto simp: play_loop_gameover)
  next
    case False
    then show ?thesis
      using Nil adj by (cases "adjudicate L adjudication v")
        (auto simp: play_loop_silent play_loop_adjudicated)
  qed
next
  case (Cons r rs)
  show ?case
  proof (cases "is_gameover L (pos v)")
    case True
    with Cons.prems over show ?thesis by (auto simp: play_loop_gameover)
  next
    case live: False
    show ?thesis
    proof (cases "adjudicate L adjudication v")
      case (Some w)
      with live Cons.prems adj show ?thesis by (auto simp: play_loop_adjudicated)
    next
      case None
      show ?thesis
      proof (cases "request L adjudication tc game r v")
        case (Next w)
        then have "I w" using Cons.prems nxt by blast
        from Cons.IH [OF this] show ?thesis
          using live None Next by (simp add: play_loop_request)
      next
        case (Break w)
        then have "Q w" using Cons.prems brk by blast
        then show ?thesis using live None Break by (auto simp: play_loop_request)
      next
        case (Throw w)
        then have "w = v" by (rule request_Throw)
        then show ?thesis using live None Throw Cons.prems by (auto simp: play_loop_request)
      qed
    qed
  qed
qed

lemma play_Returned:
  assumes "play L adjudication tc game engines = Returned out"
  obtains v where "out = finish L v"
    and "play_loop L adjudication tc game (answers engines) (initial L tc game) = Returned v"
  | v where "out = finish L (engine_crash L v)"
    and "play_loop L adjudication tc game (answers engines) (initial L tc game) = Thrown v
         \<or> v = initial L tc game"
  using assms
  by (auto simp: play_def after_try_def split: if_splits Run.splits)

lemma play_ply_count:
  assumes "play L adjudication tc game engines = Returned out"
  shows "ply_count out = int (length (history (info out)))"
proof -
  let ?I = "\<lambda>v::('a, 'b) Vars. ply_count v = int (length (history (info v)))"
  have loop: "(play_loop L adjudication tc game (answers engines) (initial L tc game) = Returned v
                \<longrightarrow> ?I v)
            \<and> (play_loop L adjudication tc game (answers engines) (initial L tc game) = Thrown v
                \<longrightarrow> ?I v)" for v
  proof (rule play_loop_invariant [where I = ?I and Q = ?I])
    show "?I (initial L tc game)" by simp
  next
    fix v v' assume "?I v" "adjudicate L adjudication v = Some v'"
    then show "?I v'" by (auto dest: adjudicate_Some)
  next
    fix v r v' assume "?I v" "request L adjudication tc game r v = Next v'"
    then show "?I v'" by (auto dest: request_Next)
  next
    fix v r v' assume "?I v" "request L adjudication tc game r v = Break v'"
    then show "?I v'" by (auto dest: request_Break)
  qed
  from assms show ?thesis
  proof (cases rule: play_Returned)
    case (1 v)
    with loop [of v] show ?thesis by simp
  next
    case (2 v)
    with loop [of v] have "?I v" by auto
    with 2 show ?thesis by (simp add: engine_crash_def)
  qed
qed

lemma advance_append:
  "advance L adjudication tc game rs v = Some v' \<Longrightarrow>
   advance L adjudication tc game (rs @ rs') v = advance L adjudication tc game rs' v'"
proof (induction rs arbitrary: v)
  case Nil
  then show ?case by simp
next
  case (Cons r rs)
  then show ?case
    by (auto split: if_splits option.splits Flow.splits)
qed

lemma advance_keeps:
  "advance L adjudication tc game rs v = Some v' \<Longrightarrow>
   result (info v') = result (info v) \<and> reason (info v') = reason (info v)
   \<and> startpos (info v') = startpos (info v) \<and> cout v' = cout v
   \<and> type (game_clock v') = type (game_clock v)
   \<and> movetime (game_clock v') = movetime (game_clock v)"
proof (induction rs arbitrary: v)
  case Nil
  then show ?case by simp
next
  case (Cons r rs)
  from Cons.prems obtain w where step: "request L adjudication tc game r v = Next w"
    and rest: "advance L adjudication tc game rs w = Some v'"
    by (auto split: if_splits option.splits Flow.splits)
  from request_Next [OF step] Cons.IH [OF rest] show ?case by auto
qed

lemma request_legal:
  assumes "parse_move L token = Some m" and "is_legal_move L (pos v) m"
  shows "request L adjudication tc game (Bestmove token diff) v =
     (let v1 = v\<lparr>ply_count := ply_count v + 1\<rparr>;
          v2 = v1\<lparr>info := (info v1)\<lparr>history := history (info v1) @ [(m, diff)]\<rparr>\<rparr>;
          v3 = update_clock L tc diff v2
      in case out_of_time L adjudication tc diff v3 of
           Some r \<Rightarrow> Break (set_result r OutOfTime v3)
         | None \<Rightarrow>
             (let v4 = increments L tc v3
              in Next (v4\<lparr>pos := makemove L (pos v4) m\<rparr>)))"
  using assms by (simp add: request_def legal_move_def)

lemma request_Next_clocks:
  assumes "request L adjudication tc game r v = Next v'"
    and "0 < btime (game_clock v)" and "0 < wtime (game_clock v)"
    and "0 \<le> binc tc" and "0 \<le> winc tc"
  shows "0 < btime (game_clock v') \<and> 0 < wtime (game_clock v')"
  using assms
  by (auto simp: request_def Let_def update_clock_def increments_def out_of_time_def
      split: Response.splits option.splits if_splits)

lemma advance_clocks_positive:
  assumes "advance L adjudication tc game rs v = Some v'"
    and "0 < btime (game_clock v)" and "0 < wtime (game_clock v)"
    and "0 \<le> binc tc" and "0 \<le> winc tc"
  shows "0 < btime (game_clock v') \<and> 0 < wtime (game_clock v')"
  using assms
proof (induction rs arbitrary: v)
  case Nil
  then show ?case by simp
next
  case (Cons r rs)
  from Cons.prems(1) obtain w where step: "request L adjudication tc game r v = Next w"
    and rest: "advance L adjudication tc game rs w = Some v'"
    by (auto split: if_splits option.splits Flow.splits)
  from request_Next_clocks [OF step Cons.prems(2-5)] Cons.IH [OF rest] Cons.prems(4,5)
  show ?case by simp
qed

text \<open>Lines 107-142 in Time mode, after a legal move.\<close>

lemma request_Time:
  assumes "type tc = Time" and "parse_move L token = Some m" and "is_legal_move L (pos v) m"
  shows "request L adjudication tc game (Bestmove token diff) v =
     (let v2 = v\<lparr>ply_count := ply_count v + 1,
                 info := (info v)\<lparr>history := history (info v) @ [(m, diff)]\<rparr>\<rparr>;
          c = game_clock v;
          c' = (if get_turn L (pos v) = Black then c\<lparr>btime := btime c - diff\<rparr>
                else c\<lparr>wtime := wtime c - diff\<rparr>)
      in if btime c' \<le> 0 then Break (set_result WhiteWin OutOfTime (v2\<lparr>game_clock := c'\<rparr>))
         else if wtime c' \<le> 0 then Break (set_result BlackWin OutOfTime (v2\<lparr>game_clock := c'\<rparr>))
         else Next (v2\<lparr>game_clock :=
                         (if get_turn L (pos v) = Black then c'\<lparr>btime := btime c' + binc tc\<rparr>
                          else c'\<lparr>wtime := wtime c' + winc tc\<rparr>),
                       pos := makemove L (pos v) m\<rparr>))"
  using assms
  by (simp add: request_legal Let_def update_clock_def out_of_time_def increments_def)

text \<open>The equations that evaluate a run of the driver on the small game.\<close>

lemmas run_defs =
  play_def after_try_def finish_def engine_crash_def play_loop.simps adjudicate_def
  material_rule_def easyfill_rule_def gamelength_rule_def request_def legal_move_def
  update_clock_def out_of_time_def increments_def set_result_def initial_def
  GameThingy_default_def make_win_for_def board_move_def board_result_def Let_def

section \<open>General facts about the command-line driver\<close>

declare play_loop_cli.simps [simp del]
declare to_string_nat.simps [simp del]


lemma play_loop_cli_request:
  "\<not> is_gameover L (pos_cli v) \<Longrightarrow> adjudicate_cli L settings v = None \<Longrightarrow>
   play_loop_cli L settings game (r # rs) v =
     (case request_cli L settings game r v of
        Next v' \<Rightarrow> play_loop_cli L settings game rs v'
      | Break v' \<Rightarrow> Returned v'
      | Throw v' \<Rightarrow> Thrown v')"
  by (simp add: play_loop_cli.simps [of _ _ _ "r # rs"])

lemma play_loop_cli_advance:
  "advance_cli L settings game rs v = Some v' \<Longrightarrow>
   play_loop_cli L settings game (rs @ rest) v = play_loop_cli L settings game rest v'"
proof (induction rs arbitrary: v)
  case Nil
  then show ?case by simp
next
  case (Cons r rs)
  from Cons.prems have live: "\<not> is_gameover L (pos_cli v)" "adjudicate_cli L settings v = None"
    by (auto split: if_splits option.splits)
  from Cons.prems live obtain v1 where
    step: "request_cli L settings game r v = Next v1"
    and rest: "advance_cli L settings game rs v1 = Some v'"
    by (auto split: Flow.splits)
  have "play_loop_cli L settings game ((r # rs) @ rest) v
        = play_loop_cli L settings game (rs @ rest) v1"
    using live step by (simp add: play_loop_cli_request)
  with Cons.IH [OF rest] show ?case by simp
qed

lemma play_cli_from:
  assumes "fen game \<noteq> []" and "id_e (engine1 game) \<noteq> id_e (engine2 game)"
    and "advance_cli L settings game rs (initial_cli L settings game) = Some v"
  shows "play_cli L settings game \<lparr>handshake = True, answers = rs @ rest\<rparr>
         = after_try_cli L game (play_loop_cli L settings game rest v)"
  using assms by (simp add: play_cli_def play_loop_cli_advance)



lemma initial_cli_fields [simp]:
  "pos_cli (initial_cli L settings game) = Position L (fen game)"
  "ply_count_cli (initial_cli L settings game) = 0"
  "btime_cli (initial_cli L settings game) = word_of_int (btime (tc_cli settings))"
  "wtime_cli (initial_cli L settings game) = word_of_int (wtime (tc_cli settings))"
  "result_cli (initial_cli L settings game) = Result_None"
  "result_reason (initial_cli L settings game) = Reason_None"
  "movestr (initial_cli L settings game) = []"
  "cout_cli (initial_cli L settings game) = []"
  "mainline (pgn (initial_cli L settings game)) = []"
  "header (pgn (initial_cli L settings game))
   = [(''Event'', pgn_event settings), (colour1 settings, name (engine1 game)),
      (colour2 settings, name (engine2 game)), (''FEN'', fen game)]"
  by (simp_all add: initial_cli_def Let_def add_def)

lemma request_cli_illegal:
  "legal_move L (pos_cli v) token = None \<Longrightarrow>
   request_cli L settings game (Bestmove token diff) v
   = Break (v\<lparr>movestr := token, result_reason := IllegalMove,
              result_cli := make_win_for (not_side (get_turn L (pos_cli v))),
              cout_cli := cout_cli v @ illegal_move_message L game (pos_cli v) token\<rparr>)"
  by (simp add: request_cli_def Let_def)

lemma to_string_0: "to_string 0 = ''0''"
  by (simp add: to_string_def to_string_nat.simps)

text \<open>
  Lines 147 and 161: a reply after 2147484649 ms takes Black's 32-bit clock from 1000
  past the smallest \<^verbatim>\<open>int\<close> to 2147483647, which is not out of time.
\<close>

lemma clock_narrowed:
  assumes "type (tc_cli settings) = Time" and "get_turn L (pos_cli v) = Black"
    and "btime_cli v = 1000" and "0 < sint (wtime_cli v)"
  shows "sint (btime_cli (update_clock_cli L settings 2147484649 v)) = 2147483647"
    and "out_of_time_cli L settings 2147484649 (update_clock_cli L settings 2147484649 v) = None"
  using assms by (simp_all add: update_clock_cli_def out_of_time_cli_def)

text \<open>Lines 222-242: three reasons leave no header.\<close>

lemma reason_header_silent:
  "why \<in> {Normal, EngineCrash, Reason_None} \<Longrightarrow> reason_header why token p = p"
  by (auto simp: reason_header_def)


section \<open>General facts about the schedule generator\<close>

lemma pairing_game_calls [simp]: "pairing_game (g\<lparr>calls := c\<rparr>) = pairing_game g"
  by (intro ext) (simp add: pairing_game_def opening_index_def)

lemma schedule_calls [simp]: "schedule (g\<lparr>calls := c\<rparr>) = schedule g"
  by (simp add: schedule_def)

lemma expected_calls [simp]: "expected (g\<lparr>calls := c\<rparr>) = expected g"
  by (simp add: expected_def)

lemma game_at_calls [simp]: "game_at (g\<lparr>calls := c\<rparr>) n = game_at g n"
  by (simp add: game_at_def)

lemma nth_game_game_at: "nth_game n g = game_at g (calls g + n)"
  by (induction n arbitrary: g) (simp_all add: next_game_def)

text \<open>\<open>game_id\<close> counts the calls and is never reset.\<close>

lemma nth_game_game_id: "nth_game n g = Some a \<Longrightarrow> game_id a = calls g + n"
  by (auto simp: nth_game_game_at game_at_def split: if_splits prod.splits)

text \<open>After \<open>expected\<close> calls the same games come again.\<close>

lemma nth_game_cycle:
  assumes "nth_game n g = Some a"
  shows "\<exists>b. nth_game (n + expected g) g = Some b
           \<and> opening_id b = opening_id a \<and> player1_idx b = player1_idx a
           \<and> player2_idx b = player2_idx a \<and> game_id b = game_id a + expected g"
  using assms
  by (auto simp: nth_game_game_at game_at_def add.assoc [symmetric]
      split: if_splits prod.splits)

lemma schedule_2_2_2_repeat:
  "schedule (RoundRobinGenerator_new 2 2 2 True) = [(0, 0, 1), (0, 1, 0)]"
  by code_simp

lemma expected_2_2_2_repeat: "expected (RoundRobinGenerator_new 2 2 2 True) = 2"
  by (simp add: expected_def schedule_2_2_2_repeat)

lemma game_at_2_2_2_repeat:
  "game_at (RoundRobinGenerator_new 2 2 2 True) n
   = Some \<lparr>game_id = n, opening_id = 0, player1_idx = n mod 2, player2_idx = 1 - n mod 2\<rparr>"
proof -
  have "[(0, 0, 1), (0, 1, 0)] ! r = (0::nat, r, 1 - r)" if "r < 2" for r :: nat
    using less_2_cases [OF that] by auto
  then have "[(0, 0, 1), (0, 1, 0)] ! (n mod 2) = (0::nat, n mod 2, 1 - n mod 2)"
    by simp
  then show ?thesis
    unfolding game_at_def expected_2_2_2_repeat schedule_2_2_2_repeat by simp
qed

lemma nth_concat_same_length:
  assumes "\<forall>xs \<in> set xss. length xs = m" and "i < length xss * m"
  shows "concat xss ! i = xss ! (i div m) ! (i mod m)"
  using assms
proof (induction xss arbitrary: i)
  case Nil
  then show ?case by simp
next
  case (Cons xs xss)
  have m: "length xs = m" using Cons.prems(1) by simp
  show ?case
  proof (cases "i < m")
    case True
    then show ?thesis by (simp add: nth_append m)
  next
    case False
    then have ge: "m \<le> i" by simp
    have pos: "0 < m" using Cons.prems(2) by (cases m) auto
    have less: "i - m < length xss * m" using Cons.prems(2) ge by simp
    have d: "i div m = Suc ((i - m) div m)" using ge pos by (simp add: le_div_geq)
    have r: "i mod m = (i - m) mod m" using ge by (simp add: le_mod_geq)
    from Cons.IH [OF _ less] Cons.prems(1)
    have "concat xss ! (i - m) = xss ! ((i - m) div m) ! ((i - m) mod m)" by simp
    then show ?thesis using False by (simp add: nth_append m d r)
  qed
qed

lemma length_schedule: "length (schedule g) = length (pairings (num_players g)) * num_games g"
  by (simp add: schedule_def length_concat o_def sum_list_triv)

lemma schedule_nth:
  assumes "i < expected g"
  shows "schedule g ! i
         = pairing_game g (pairings (num_players g) ! (i div num_games g)) (i mod num_games g)"
proof -
  let ?G = "num_games g"
  let ?xss = "map (\<lambda>p. map (pairing_game g p) [0 ..< ?G]) (pairings (num_players g))"
  have pos: "0 < ?G" using assms by (cases "?G") (auto simp: expected_def length_schedule)
  have i: "i < length ?xss * ?G" using assms by (simp add: expected_def length_schedule)
  then have d: "i div ?G < length (pairings (num_players g))"
    by (simp add: less_mult_imp_div_less)
  have "schedule g ! i = ?xss ! (i div ?G) ! (i mod ?G)"
    unfolding schedule_def by (rule nth_concat_same_length) (use i in auto)
  then show ?thesis using d pos by simp
qed

text \<open>
  With \<open>repeat\<close> and an even number of games a pairing, every call with an even number
  is followed by the game with the colours swapped and the same opening.
\<close>

lemma nth_game_colour_swapped:
  assumes "repeat g" and "even (num_games g)" and "calls g = 0" and "even n"
    and "nth_game n g = Some a"
  shows "\<exists>b. nth_game (Suc n) g = Some b \<and> colour_swapped a b"
proof -
  let ?G = "num_games g" and ?E = "expected g"
  have E: "?E \<noteq> 0" using assms(5,3) by (auto simp: nth_game_game_at game_at_def split: if_splits)
  have evenE: "even ?E" using assms(2) by (simp add: expected_def length_schedule)
  let ?i = "n mod ?E"
  have i: "?i < ?E" using E by simp
  have ei: "even ?i" using assms(4) evenE by (simp add: dvd_mod_iff)
  have si: "Suc ?i < ?E"
  proof (rule ccontr)
    assume "\<not> Suc ?i < ?E"
    with i have "Suc ?i = ?E" by simp
    with ei evenE show False by (metis even_Suc)
  qed
  then have next_i: "Suc n mod ?E = Suc ?i" by (simp add: mod_Suc)
  have G: "0 < ?G" using E by (cases "?G") (auto simp: expected_def length_schedule)
  let ?k = "?i mod ?G"
  have ek: "even ?k" using ei assms(2) by (simp add: dvd_mod_iff)
  have sk: "Suc ?k < ?G"
  proof (rule ccontr)
    assume "\<not> Suc ?k < ?G"
    moreover have "?k < ?G" using G by simp
    ultimately have "Suc ?k = ?G" by simp
    with ek assms(2) show False by (metis even_Suc)
  qed
  then have km: "Suc ?i mod ?G = Suc ?k" by (simp add: mod_Suc)
  have kd: "Suc ?i div ?G = ?i div ?G" using km by (simp add: div_Suc)
  have one: "schedule g ! ?i
     = pairing_game g (pairings (num_players g) ! (?i div ?G)) ?k"
    using i by (rule schedule_nth)
  have two: "schedule g ! Suc ?i
     = pairing_game g (pairings (num_players g) ! (?i div ?G)) (Suc ?k)"
    using schedule_nth [OF si] unfolding km kd .
  show ?thesis
    using assms(1,3,5) E ek one two next_i
    by (auto simp: nth_game_game_at game_at_def pairing_game_def colour_swapped_def
        simp del: nth_game.simps split: prod.splits)
qed

section \<open>The test cases of the schedule generator\<close>

text \<open>
  The four cases of \<^verbatim>\<open>tests/core/tournament/roundrobin.cpp\<close>, each with its
  \<^verbatim>\<open>expected()\<close> and all its calls of \<^verbatim>\<open>next()\<close>: the modelled generator passes them.
\<close>

lemma roundrobin_test_1:
  "expected (RoundRobinGenerator_new 2 2 2 True) = 2"
  "next_games 10 (RoundRobinGenerator_new 2 2 2 True)
   = map GameInfo_of
       [(0, 0, 0, 1), (1, 0, 1, 0), (2, 0, 0, 1), (3, 0, 1, 0), (4, 0, 0, 1), (5, 0, 1, 0),
        (6, 0, 0, 1), (7, 0, 1, 0), (8, 0, 0, 1), (9, 0, 1, 0)]"
  by code_simp+

lemma roundrobin_test_2:
  "expected (RoundRobinGenerator_new 2 4 2 True) = 4"
  "next_games 8 (RoundRobinGenerator_new 2 4 2 True)
   = map GameInfo_of
       [(0, 0, 0, 1), (1, 0, 1, 0), (2, 1, 0, 1), (3, 1, 1, 0),
        (4, 0, 0, 1), (5, 0, 1, 0), (6, 1, 0, 1), (7, 1, 1, 0)]"
  by code_simp+

lemma roundrobin_test_3:
  "expected (RoundRobinGenerator_new 4 2 2 True) = 12"
  "next_games 14 (RoundRobinGenerator_new 4 2 2 True)
   = map GameInfo_of
       [(0, 0, 0, 1), (1, 0, 1, 0), (2, 0, 0, 2), (3, 0, 2, 0), (4, 0, 0, 3), (5, 0, 3, 0),
        (6, 0, 1, 2), (7, 0, 2, 1), (8, 0, 1, 3), (9, 0, 3, 1),
        (10, 0, 2, 3), (11, 0, 3, 2), (12, 0, 0, 1), (13, 0, 1, 0)]"
  by code_simp+

lemma roundrobin_test_no_repeat:
  "expected (RoundRobinGenerator_new 2 2 2 False) = 2"
  "next_games 10 (RoundRobinGenerator_new 2 2 2 False)
   = map GameInfo_of
       [(0, 0, 0, 1), (1, 1, 0, 1), (2, 0, 0, 1), (3, 1, 0, 1), (4, 0, 0, 1), (5, 1, 0, 1),
        (6, 0, 0, 1), (7, 1, 0, 1), (8, 0, 0, 1), (9, 1, 0, 1)]"
  by code_simp+

section \<open>Material adjudication (C1)\<close>

text \<open>
  C1, as the code has it: whenever the driver, at the head of the loop in a position
  that is not game over, finds the material rule enabled and triggered, the game ends
  there with reason \<open>MaterialImbalance\<close> and a win for the side to move
  (\<^verbatim>\<open>make_win_for(pos.get_turn())\<close>). Which side has more pieces plays no part in
  the result.
\<close>

theorem material_adjudication_side_to_move:
  assumes "fen game \<noteq> []" and "id_e (engine1 game) \<noteq> id_e (engine2 game)"
    and "advance L adjudication tc game rs (initial L tc game) = Some v"
    and "\<not> is_gameover L (pos v)"
    and "material adjudication = Some m"
    and "can_adjudicate_material L (pos v) m"
  shows "\<exists>out. play L adjudication tc game \<lparr>handshake = True, answers = rs @ rest\<rparr> = Returned out
           \<and> result (info out) = make_win_for (get_turn L (pos v))
           \<and> reason (info out) = MaterialImbalance
           \<and> endpos (info out) = pos v"
proof -
  have "adjudicate L adjudication v
        = Some (set_result (make_win_for (get_turn L (pos v))) MaterialImbalance v)"
    using assms(5,6) by (simp add: adjudicate_def material_rule_def)
  with assms(4) have "play_loop L adjudication tc game rest v
        = Returned (set_result (make_win_for (get_turn L (pos v))) MaterialImbalance v)"
    by (rule play_loop_adjudicated)
  then show ?thesis
    using play_from [OF assms(1-3), of rest] by (simp add: after_try_def finish_result)
qed

theorem material_adjudication_side_to_move_witness:
  "fen two_engines \<noteq> [] \<and> id_e (engine1 two_engines) \<noteq> id_e (engine2 two_engines)
   \<and> advance (Counting white_behind) material_5_10 movetime_100 two_engines []
        (initial (Counting white_behind) movetime_100 two_engines)
       = Some (initial (Counting white_behind) movetime_100 two_engines)
   \<and> \<not> is_gameover (Counting white_behind)
         (pos (initial (Counting white_behind) movetime_100 two_engines))
   \<and> material material_5_10 = Some \<lparr>pieces = 5, plies = 10\<rparr>
   \<and> can_adjudicate_material (Counting white_behind)
        (pos (initial (Counting white_behind) movetime_100 two_engines)) \<lparr>pieces = 5, plies = 10\<rparr>
   \<and> (\<exists>out. play (Counting white_behind) material_5_10 movetime_100 two_engines
               \<lparr>handshake = True, answers = [] @ []\<rparr> = Returned out
           \<and> result (info out) = WhiteWin
           \<and> reason (info out) = MaterialImbalance
           \<and> endpos (info out) = white_behind)"
  using material_adjudication_side_to_move [of two_engines "Counting white_behind" material_5_10
      movetime_100 "[]" "initial (Counting white_behind) movetime_100 two_engines"
      "\<lparr>pieces = 5, plies = 10\<rparr>" "[]"]
  by (simp add: white_behind_def material_5_10_def movetime_100_def two_engines_def
      make_win_for_def)

text \<open>
  C1 as stated fails: White is to move with 2 pieces against 10, the lead of 8 is at
  least 5 and 20 half-moves are at least 10, so the rule triggers, and the recorded
  result is a win for White, the side with fewer pieces.
\<close>

theorem material_winner_counterexample:
  "\<bar>black_count (Counting white_behind) white_behind
     - white_count (Counting white_behind) white_behind\<bar> \<ge> pieces \<lparr>pieces = 5, plies = 10\<rparr>
   \<and> plies_played (Counting white_behind) white_behind \<ge> plies \<lparr>pieces = 5, plies = 10\<rparr>
   \<and> can_adjudicate_material (Counting white_behind) white_behind \<lparr>pieces = 5, plies = 10\<rparr>
   \<and> white_count (Counting white_behind) white_behind
       < black_count (Counting white_behind) white_behind
   \<and> map_Run (result \<circ> info)
        (play (Counting white_behind) material_5_10 movetime_100 two_engines
           \<lparr>handshake = True, answers = []\<rparr>) = Returned WhiteWin
   \<and> map_Run (reason \<circ> info)
        (play (Counting white_behind) material_5_10 movetime_100 two_engines
           \<lparr>handshake = True, answers = []\<rparr>) = Returned MaterialImbalance"
  by (simp add: white_behind_def material_5_10_def movetime_100_def two_engines_def
      play_def play_loop.simps adjudicate_def material_rule_def after_try_def finish_result
      make_win_for_def)

section \<open>A reply that is illegal and late (C2)\<close>

text \<open>
  C2, as the code has it: in Movetime mode, when the reply to a move request fails to
  parse or is not legal in the position, and it arrived later than
  \<open>movetime + timeout_buffer\<close>, the game ends with reason \<open>IllegalMove\<close> and a win for
  the other side. The inner \<^verbatim>\<open>catch\<close> leaves the loop before the clock is looked at.
\<close>

theorem illegal_and_late_is_illegal_move:
  assumes "fen game \<noteq> []" and "id_e (engine1 game) \<noteq> id_e (engine2 game)"
    and "advance L adjudication tc game rs (initial L tc game) = Some v"
    and "\<not> is_gameover L (pos v)"
    and "adjudicate L adjudication v = None"
    and "type tc = Movetime"
    and "parse_move L token = None
         \<or> (\<exists>m. parse_move L token = Some m \<and> \<not> is_legal_move L (pos v) m)"
    and "diff > movetime tc + timeout_buffer adjudication"
  shows "\<exists>out. play L adjudication tc game
                 \<lparr>handshake = True, answers = rs @ Bestmove token diff # rest\<rparr> = Returned out
           \<and> reason (info out) = IllegalMove
           \<and> result (info out) = make_win_for (not_side (get_turn L (pos v)))"
proof -
  from assms(7) have "legal_move L (pos v) token = None"
    by (simp add: legal_move_None_iff)
  then have "play_loop L adjudication tc game (Bestmove token diff # rest) v
    = Returned ((set_result (make_win_for (not_side (get_turn L (pos v)))) IllegalMove v)
                  \<lparr>cout := cout v @ illegal_move_message L game (pos v) token\<rparr>)"
    using assms(4,5) by (simp add: play_loop_request request_illegal)
  then show ?thesis
    using play_from [OF assms(1-3), of "Bestmove token diff # rest"]
    by (simp add: after_try_def finish_result set_result_def finish_def)
qed

theorem illegal_and_late_is_illegal_move_witness:
  "fen two_engines \<noteq> [] \<and> id_e (engine1 two_engines) \<noteq> id_e (engine2 two_engines)
   \<and> advance (Counting start_board) (no_adjudication 50) movetime_100 two_engines []
        (initial (Counting start_board) movetime_100 two_engines)
       = Some (initial (Counting start_board) movetime_100 two_engines)
   \<and> \<not> is_gameover (Counting start_board)
         (pos (initial (Counting start_board) movetime_100 two_engines))
   \<and> adjudicate (Counting start_board) (no_adjudication 50)
        (initial (Counting start_board) movetime_100 two_engines) = None
   \<and> type movetime_100 = Movetime
   \<and> parse_move (Counting start_board) ''xyz'' = None
   \<and> (200::int) > movetime movetime_100 + timeout_buffer (no_adjudication 50)
   \<and> (\<exists>out. play (Counting start_board) (no_adjudication 50) movetime_100 two_engines
               \<lparr>handshake = True, answers = [] @ Bestmove ''xyz'' 200 # []\<rparr> = Returned out
           \<and> reason (info out) = IllegalMove
           \<and> result (info out) = WhiteWin)"
  using illegal_and_late_is_illegal_move [of two_engines "Counting start_board"
      "no_adjudication 50" movetime_100 "[]"
      "initial (Counting start_board) movetime_100 two_engines" "''xyz''" 200 "[]"]
  by (simp add: start_board_def no_adjudication_def movetime_100_def two_engines_def
      make_win_for_def adjudicate_def material_rule_def easyfill_rule_def gamelength_rule_def)

text \<open>
  C2 as stated fails: with \<open>movetime = 100\<close> and a buffer of 50, Black answers the first
  request with the token \<open>xyz\<close> after 200 ms; the reason recorded is \<open>IllegalMove\<close>,
  not \<open>OutOfTime\<close>.
\<close>

theorem illegal_and_late_counterexample:
  "type movetime_100 = Movetime
   \<and> legal_move (Counting start_board) start_board ''xyz'' = None
   \<and> (200::int) > movetime movetime_100 + timeout_buffer (no_adjudication 50)
   \<and> map_Run (reason \<circ> info)
        (play (Counting start_board) (no_adjudication 50) movetime_100 two_engines
           \<lparr>handshake = True, answers = [Bestmove ''xyz'' 200]\<rparr>) = Returned IllegalMove"
  by (simp add: start_board_def no_adjudication_def movetime_100_def two_engines_def
      play_def play_loop.simps adjudicate_def material_rule_def easyfill_rule_def
      gamelength_rule_def after_try_def request_def legal_move_def)

section \<open>A game that runs to its end (C3)\<close>



section \<open>Movetime mode: the check after a legal move (C4)\<close>

text \<open>
  C4: in Movetime mode, when the reply to a move request parses and is legal, then
  \<^item> if it took longer than \<open>movetime + timeout_buffer\<close>, the game ends with reason
    \<open>OutOfTime\<close> and a loss for the side that just moved: \<open>WhiteWin\<close> when Black
    moved, \<open>BlackWin\<close> when White moved;
  \<^item> otherwise the game continues: the move is made, no result is set, and the loop is
    at its head again with the remaining answers.
  With \<open>movetime = 100\<close> and a reply of Black after 200 ms, a buffer of 50 gives
  \<open>WhiteWin\<close> and \<open>OutOfTime\<close>, a buffer of 200 lets the game continue.
\<close>

theorem movetime_overrun:
  assumes "fen game \<noteq> []" and "id_e (engine1 game) \<noteq> id_e (engine2 game)"
    and "advance L adjudication tc game rs (initial L tc game) = Some v"
    and "\<not> is_gameover L (pos v)"
    and "adjudicate L adjudication v = None"
    and "type tc = Movetime"
    and "parse_move L token = Some m" and "is_legal_move L (pos v) m"
  shows "(diff > movetime tc + timeout_buffer adjudication \<longrightarrow>
            (\<exists>out. play L adjudication tc game
                      \<lparr>handshake = True, answers = rs @ Bestmove token diff # rest\<rparr> = Returned out
               \<and> result (info out) = (if get_turn L (pos v) = Black then WhiteWin else BlackWin)
               \<and> reason (info out) = OutOfTime))
       \<and> (diff \<le> movetime tc + timeout_buffer adjudication \<longrightarrow>
            (\<exists>v'. advance L adjudication tc game (rs @ [Bestmove token diff]) (initial L tc game)
                    = Some v'
               \<and> pos v' = makemove L (pos v) m
               \<and> result (info v') = Result_None \<and> reason (info v') = Reason_None
               \<and> play L adjudication tc game
                    \<lparr>handshake = True, answers = rs @ Bestmove token diff # rest\<rparr>
                  = after_try L (play_loop L adjudication tc game rest v')))"
proof -
  note keeps = advance_keeps [OF assms(3)]
  have clock: "movetime (game_clock v) = movetime tc" using keeps by simp
  have fresh: "result (info v) = Result_None" "reason (info v) = Reason_None"
    using keeps by simp_all
  note body = request_legal [OF assms(7,8), of adjudication tc game diff]
  note whole = play_from [OF assms(1-3), of "Bestmove token diff # rest"]
  show ?thesis
  proof (intro conjI impI)
    assume late: "diff > movetime tc + timeout_buffer adjudication"
    have "request L adjudication tc game (Bestmove token diff) v
          = Break (set_result (make_win_for (not_side (get_turn L (pos v)))) OutOfTime
                     (v\<lparr>ply_count := ply_count v + 1,
                        info := (info v)\<lparr>history := history (info v) @ [(m, diff)]\<rparr>\<rparr>))"
      using late clock assms(6) by (simp add: body Let_def update_clock_def out_of_time_def)
    then have "play L adjudication tc game
                 \<lparr>handshake = True, answers = rs @ Bestmove token diff # rest\<rparr>
       = Returned (finish L
           (set_result (make_win_for (not_side (get_turn L (pos v)))) OutOfTime
              (v\<lparr>ply_count := ply_count v + 1,
                 info := (info v)\<lparr>history := history (info v) @ [(m, diff)]\<rparr>\<rparr>)))"
      using whole assms(4,5) by (simp add: play_loop_request after_try_def)
    then show "\<exists>out. play L adjudication tc game
                      \<lparr>handshake = True, answers = rs @ Bestmove token diff # rest\<rparr> = Returned out
               \<and> result (info out) = (if get_turn L (pos v) = Black then WhiteWin else BlackWin)
               \<and> reason (info out) = OutOfTime"
      by (cases "get_turn L (pos v)") (simp_all add: finish_result make_win_for_def)
  next
    assume intime: "diff \<le> movetime tc + timeout_buffer adjudication"
    let ?v' = "v\<lparr>ply_count := ply_count v + 1,
                 info := (info v)\<lparr>history := history (info v) @ [(m, diff)]\<rparr>,
                 pos := makemove L (pos v) m\<rparr>"
    have step: "request L adjudication tc game (Bestmove token diff) v = Next ?v'"
      using intime clock assms(6)
      by (simp add: body Let_def update_clock_def out_of_time_def increments_def)
    have "advance L adjudication tc game (rs @ [Bestmove token diff]) (initial L tc game)
          = Some ?v'"
      using advance_append [OF assms(3), of "[Bestmove token diff]"] step assms(4,5) by simp
    moreover have "play L adjudication tc game
                    \<lparr>handshake = True, answers = rs @ Bestmove token diff # rest\<rparr>
                  = after_try L (play_loop L adjudication tc game rest ?v')"
      using whole step assms(4,5) by (simp add: play_loop_request)
    ultimately show "\<exists>v'. advance L adjudication tc game (rs @ [Bestmove token diff])
                      (initial L tc game) = Some v'
               \<and> pos v' = makemove L (pos v) m
               \<and> result (info v') = Result_None \<and> reason (info v') = Reason_None
               \<and> play L adjudication tc game
                    \<lparr>handshake = True, answers = rs @ Bestmove token diff # rest\<rparr>
                  = after_try L (play_loop L adjudication tc game rest v')"
      using fresh by (intro exI [of _ ?v']) simp
  qed
qed

theorem movetime_overrun_witness:
  "fen two_engines \<noteq> [] \<and> id_e (engine1 two_engines) \<noteq> id_e (engine2 two_engines)
   \<and> advance (Counting start_board) (no_adjudication 50) movetime_100 two_engines []
        (initial (Counting start_board) movetime_100 two_engines)
       = Some (initial (Counting start_board) movetime_100 two_engines)
   \<and> \<not> is_gameover (Counting start_board)
         (pos (initial (Counting start_board) movetime_100 two_engines))
   \<and> adjudicate (Counting start_board) (no_adjudication 50)
        (initial (Counting start_board) movetime_100 two_engines) = None
   \<and> adjudicate (Counting start_board) (no_adjudication 200)
        (initial (Counting start_board) movetime_100 two_engines) = None
   \<and> type movetime_100 = Movetime
   \<and> parse_move (Counting start_board) ''1'' = Some 1
   \<and> is_legal_move (Counting start_board)
        (pos (initial (Counting start_board) movetime_100 two_engines)) 1
   \<and> get_turn (Counting start_board)
        (pos (initial (Counting start_board) movetime_100 two_engines)) = Black
   \<and> (200::int) > movetime movetime_100 + timeout_buffer (no_adjudication 50)
   \<and> (\<exists>out. play (Counting start_board) (no_adjudication 50) movetime_100 two_engines
               \<lparr>handshake = True, answers = [] @ Bestmove ''1'' 200 # []\<rparr> = Returned out
           \<and> result (info out) = WhiteWin \<and> reason (info out) = OutOfTime)
   \<and> (200::int) \<le> movetime movetime_100 + timeout_buffer (no_adjudication 200)
   \<and> (\<exists>v'. advance (Counting start_board) (no_adjudication 200) movetime_100 two_engines
               ([] @ [Bestmove ''1'' 200]) (initial (Counting start_board) movetime_100 two_engines)
             = Some v'
           \<and> pos v' = \<lparr>to_move = White, blacks = 3, whites = 2, halfmoves = 1, stuck = False\<rparr>
           \<and> result (info v') = Result_None \<and> reason (info v') = Reason_None
           \<and> play (Counting start_board) (no_adjudication 200) movetime_100 two_engines
                \<lparr>handshake = True, answers = [] @ Bestmove ''1'' 200 # [Bestmove ''1'' 10]\<rparr>
              = after_try (Counting start_board)
                  (play_loop (Counting start_board) (no_adjudication 200) movetime_100 two_engines
                     [Bestmove ''1'' 10] v'))
   \<and> advance (Counting white_starts) (no_adjudication 50) movetime_100 two_engines []
        (initial (Counting white_starts) movetime_100 two_engines)
       = Some (initial (Counting white_starts) movetime_100 two_engines)
   \<and> \<not> is_gameover (Counting white_starts)
         (pos (initial (Counting white_starts) movetime_100 two_engines))
   \<and> adjudicate (Counting white_starts) (no_adjudication 50)
        (initial (Counting white_starts) movetime_100 two_engines) = None
   \<and> parse_move (Counting white_starts) ''1'' = Some 1
   \<and> is_legal_move (Counting white_starts)
        (pos (initial (Counting white_starts) movetime_100 two_engines)) 1
   \<and> get_turn (Counting white_starts)
        (pos (initial (Counting white_starts) movetime_100 two_engines)) = White
   \<and> (\<exists>out. play (Counting white_starts) (no_adjudication 50) movetime_100 two_engines
               \<lparr>handshake = True, answers = [] @ Bestmove ''1'' 200 # []\<rparr> = Returned out
           \<and> result (info out) = BlackWin \<and> reason (info out) = OutOfTime)"
proof -
  have game: "fen two_engines \<noteq> []" "id_e (engine1 two_engines) \<noteq> id_e (engine2 two_engines)"
    by (simp_all add: two_engines_def)
  have black: "\<not> is_gameover (Counting start_board)
         (pos (initial (Counting start_board) movetime_100 two_engines))"
    "type movetime_100 = Movetime"
    "parse_move (Counting start_board) ''1'' = Some 1"
    "is_legal_move (Counting start_board)
        (pos (initial (Counting start_board) movetime_100 two_engines)) 1"
    "get_turn (Counting start_board)
        (pos (initial (Counting start_board) movetime_100 two_engines)) = Black"
    by (simp_all add: start_board_def movetime_100_def)
  have white: "\<not> is_gameover (Counting white_starts)
         (pos (initial (Counting white_starts) movetime_100 two_engines))"
    "parse_move (Counting white_starts) ''1'' = Some 1"
    "is_legal_move (Counting white_starts)
        (pos (initial (Counting white_starts) movetime_100 two_engines)) 1"
    "get_turn (Counting white_starts)
        (pos (initial (Counting white_starts) movetime_100 two_engines)) = White"
    by (simp_all add: white_starts_def)
  have none: "adjudicate (Counting s) (no_adjudication b)
        (initial (Counting s) movetime_100 two_engines) = None" for s b
    by (simp add: adjudicate_def material_rule_def easyfill_rule_def gamelength_rule_def
        no_adjudication_def)
  have times: "(200::int) > movetime movetime_100 + timeout_buffer (no_adjudication 50)"
    "(200::int) \<le> movetime movetime_100 + timeout_buffer (no_adjudication 200)"
    by (simp_all add: movetime_100_def no_adjudication_def)
  have start: "advance (Counting s) a movetime_100 two_engines []
        (initial (Counting s) movetime_100 two_engines)
       = Some (initial (Counting s) movetime_100 two_engines)" for a s
    by simp
  have moved: "makemove (Counting start_board)
      (pos (initial (Counting start_board) movetime_100 two_engines)) 1
     = \<lparr>to_move = White, blacks = 3, whites = 2, halfmoves = 1, stuck = False\<rparr>"
    by (simp add: board_move_def start_board_def)
  have side: "(if Black = Black then WhiteWin else BlackWin) = WhiteWin"
    "(if White = Black then WhiteWin else BlackWin) = BlackWin"
    by simp_all
  from movetime_overrun [OF game start black(1) none black(2,3,4), of 50 200 "[]"]
    movetime_overrun [OF game start black(1) none black(2,3,4), of 200 200 "[Bestmove ''1'' 10]"]
    movetime_overrun [OF game start white(1) none black(2) white(2,3), of 50 200 "[]"]
  show ?thesis
    using game black white none times start unfolding black(5) white(4) side moved by blast
qed

section \<open>Time mode: the clock after a legal move (C5)\<close>

text \<open>
  C5, as the code has it. In Time mode the clock starts as the configured \<open>tc\<close>. After
  a reply that parses and is legal, the elapsed time is taken from the mover's clock,
  and then Black's clock is tested first and White's second, whoever moved:
  \<^item> if the mover's remaining time is at most 0, the game ends with reason
    \<open>OutOfTime\<close>, a win for the other side, and no increment added, provided that
    Black's clock is positive when White is the mover;
  \<^item> if the mover's remaining time and the other clock are positive, the mover's
    increment is added, the move is made and the game continues.
  In a game configured with positive times and increments that are not negative, both
  clocks are positive at every move request, so the proviso holds throughout.
\<close>

theorem fischer_clock:
  assumes "fen game \<noteq> []" and "id_e (engine1 game) \<noteq> id_e (engine2 game)"
    and "advance L adjudication tc game rs (initial L tc game) = Some v"
    and "\<not> is_gameover L (pos v)"
    and "adjudicate L adjudication v = None"
    and "type tc = Time"
    and "parse_move L token = Some m" and "is_legal_move L (pos v) m"
    and "mover = get_turn L (pos v)"
    and "remaining = clock_of mover (game_clock v) - diff"
  shows "game_clock (initial L tc game) = tc
       \<and> (remaining \<le> 0 \<and> (mover = White \<longrightarrow> 0 < btime (game_clock v)) \<longrightarrow>
            (\<exists>out. play L adjudication tc game
                      \<lparr>handshake = True, answers = rs @ Bestmove token diff # rest\<rparr> = Returned out
               \<and> result (info out) = make_win_for (not_side mover)
               \<and> reason (info out) = OutOfTime
               \<and> clock_of mover (game_clock out) = remaining))
       \<and> (0 < remaining \<and> 0 < clock_of (not_side mover) (game_clock v) \<longrightarrow>
            (\<exists>v'. advance L adjudication tc game (rs @ [Bestmove token diff]) (initial L tc game)
                    = Some v'
               \<and> clock_of mover (game_clock v') = remaining + increment_of mover tc
               \<and> clock_of (not_side mover) (game_clock v')
                 = clock_of (not_side mover) (game_clock v)
               \<and> pos v' = makemove L (pos v) m
               \<and> play L adjudication tc game
                    \<lparr>handshake = True, answers = rs @ Bestmove token diff # rest\<rparr>
                  = after_try L (play_loop L adjudication tc game rest v')))
       \<and> (0 < btime tc \<and> 0 < wtime tc \<and> 0 \<le> binc tc \<and> 0 \<le> winc tc \<longrightarrow>
            0 < btime (game_clock v) \<and> 0 < wtime (game_clock v))"
proof -
  note body = request_Time [OF assms(6,7,8), of adjudication game diff]
  note whole = play_from [OF assms(1-3), of "Bestmove token diff # rest"]
  have loop: "play_loop L adjudication tc game (Bestmove token diff # rest) v =
     (case request L adjudication tc game (Bestmove token diff) v of
        Next v' \<Rightarrow> play_loop L adjudication tc game rest v'
      | Break v' \<Rightarrow> Returned v'
      | Throw v' \<Rightarrow> Thrown v')"
    using assms(4,5) by (rule play_loop_request)
  have lost: "\<exists>out. play L adjudication tc game
                      \<lparr>handshake = True, answers = rs @ Bestmove token diff # rest\<rparr> = Returned out
               \<and> result (info out) = make_win_for (not_side mover)
               \<and> reason (info out) = OutOfTime
               \<and> clock_of mover (game_clock out) = remaining"
    if "remaining \<le> 0" and "mover = White \<longrightarrow> 0 < btime (game_clock v)"
  proof (cases mover)
    case Black
    with that assms(9,10) show ?thesis
      by (simp add: whole loop body Let_def after_try_def finish_result clock_of_def
          make_win_for_def)
  next
    case White
    with that assms(9,10) show ?thesis
      by (simp add: whole loop body Let_def after_try_def finish_result clock_of_def
          make_win_for_def)
  qed
  have live: "\<exists>v'. advance L adjudication tc game (rs @ [Bestmove token diff]) (initial L tc game)
                    = Some v'
               \<and> clock_of mover (game_clock v') = remaining + increment_of mover tc
               \<and> clock_of (not_side mover) (game_clock v')
                 = clock_of (not_side mover) (game_clock v)
               \<and> pos v' = makemove L (pos v) m
               \<and> play L adjudication tc game
                    \<lparr>handshake = True, answers = rs @ Bestmove token diff # rest\<rparr>
                  = after_try L (play_loop L adjudication tc game rest v')"
    if "0 < remaining" and "0 < clock_of (not_side mover) (game_clock v)"
  proof (cases mover)
    case Black
    with that assms(4,5,9,10) show ?thesis
      by (simp add: whole loop advance_append [OF assms(3)] body Let_def clock_of_def
          increment_of_def)
  next
    case White
    with that assms(4,5,9,10) show ?thesis
      by (simp add: whole loop advance_append [OF assms(3)] body Let_def clock_of_def
          increment_of_def)
  qed
  have pos: "0 < btime (game_clock v) \<and> 0 < wtime (game_clock v)"
    if "0 < btime tc \<and> 0 < wtime tc \<and> 0 \<le> binc tc \<and> 0 \<le> winc tc"
    using advance_clocks_positive [OF assms(3)] that by simp
  from lost live pos show ?thesis by simp
qed

theorem fischer_clock_witness:
  "fen two_engines \<noteq> [] \<and> id_e (engine1 two_engines) \<noteq> id_e (engine2 two_engines)
   \<and> advance (Counting start_board) (no_adjudication 50) fischer_1000 two_engines four_moves
        (initial (Counting start_board) fischer_1000 two_engines) = Some after_four_moves
   \<and> \<not> is_gameover (Counting start_board) (pos after_four_moves)
   \<and> adjudicate (Counting start_board) (no_adjudication 50) after_four_moves = None
   \<and> type fischer_1000 = Time
   \<and> parse_move (Counting start_board) ''1'' = Some 1
   \<and> is_legal_move (Counting start_board) (pos after_four_moves) 1
   \<and> Black = get_turn (Counting start_board) (pos after_four_moves)
   \<and> game_clock (initial (Counting start_board) fischer_1000 two_engines) = fischer_1000
   \<and> - 100 = clock_of Black (game_clock after_four_moves) - 300
   \<and> (\<exists>out. play (Counting start_board) (no_adjudication 50) fischer_1000 two_engines
               \<lparr>handshake = True, answers = four_moves @ Bestmove ''1'' 300 # []\<rparr> = Returned out
           \<and> result (info out) = WhiteWin
           \<and> reason (info out) = OutOfTime
           \<and> clock_of Black (game_clock out) = - 100)
   \<and> 100 = clock_of Black (game_clock after_four_moves) - 100
   \<and> 0 < clock_of White (game_clock after_four_moves)
   \<and> (\<exists>v'. advance (Counting start_board) (no_adjudication 50) fischer_1000 two_engines
               (four_moves @ [Bestmove ''1'' 100])
               (initial (Counting start_board) fischer_1000 two_engines) = Some v'
           \<and> clock_of Black (game_clock v') = 100
           \<and> clock_of White (game_clock v') = 900
           \<and> pos v' = \<lparr>to_move = White, blacks = 5, whites = 4, halfmoves = 5, stuck = False\<rparr>)
   \<and> 0 < btime fischer_1000 \<and> 0 < wtime fischer_1000
   \<and> 0 \<le> binc fischer_1000 \<and> 0 \<le> winc fischer_1000
   \<and> 0 < btime (game_clock after_four_moves) \<and> 0 < wtime (game_clock after_four_moves)"
proof -
  have game: "fen two_engines \<noteq> []" "id_e (engine1 two_engines) \<noteq> id_e (engine2 two_engines)"
    by (simp_all add: two_engines_def)
  have reach: "advance (Counting start_board) (no_adjudication 50) fischer_1000 two_engines
        four_moves (initial (Counting start_board) fischer_1000 two_engines)
      = Some after_four_moves"
    by (simp add: four_moves_def after_four_moves_def run_defs start_board_def
        no_adjudication_def fischer_1000_def two_engines_def)
  have here: "\<not> is_gameover (Counting start_board) (pos after_four_moves)"
    "adjudicate (Counting start_board) (no_adjudication 50) after_four_moves = None"
    "type fischer_1000 = Time"
    "parse_move (Counting start_board) ''1'' = Some 1"
    "is_legal_move (Counting start_board) (pos after_four_moves) 1"
    "Black = get_turn (Counting start_board) (pos after_four_moves)"
    by (simp_all add: after_four_moves_def adjudicate_def material_rule_def easyfill_rule_def
        gamelength_rule_def no_adjudication_def fischer_1000_def)
  have clocks: "- 100 = clock_of Black (game_clock after_four_moves) - 300"
    "100 = clock_of Black (game_clock after_four_moves) - 100"
    "0 < clock_of White (game_clock after_four_moves)"
    "clock_of White (game_clock after_four_moves) = 900"
    "increment_of Black fischer_1000 = 0"
    "0 < btime fischer_1000" "0 < wtime fischer_1000"
    "0 \<le> binc fischer_1000" "0 \<le> winc fischer_1000"
    "not_side Black = White" "make_win_for White = WhiteWin"
    by (simp_all add: after_four_moves_def clock_of_def increment_of_def fischer_1000_def
        make_win_for_def)
  have moved: "makemove (Counting start_board) (pos after_four_moves) 1
     = \<lparr>to_move = White, blacks = 5, whites = 4, halfmoves = 5, stuck = False\<rparr>"
    by (simp add: board_move_def after_four_moves_def)
  note late = fischer_clock [OF game reach here(1-6) clocks(1), of "[]"]
  note intime = fischer_clock [OF game reach here(1-6) clocks(2), of "[]"]
  have init: "game_clock (initial (Counting start_board) fischer_1000 two_engines) = fischer_1000"
    using late by blast
  have lost: "\<exists>out. play (Counting start_board) (no_adjudication 50) fischer_1000 two_engines
               \<lparr>handshake = True, answers = four_moves @ Bestmove ''1'' 300 # []\<rparr> = Returned out
           \<and> result (info out) = WhiteWin
           \<and> reason (info out) = OutOfTime
           \<and> clock_of Black (game_clock out) = - 100"
    using late clocks(10,11) by simp
  have "\<exists>v'. advance (Counting start_board) (no_adjudication 50) fischer_1000 two_engines
               (four_moves @ [Bestmove ''1'' 100])
               (initial (Counting start_board) fischer_1000 two_engines) = Some v'
           \<and> clock_of Black (game_clock v') = 100 + increment_of Black fischer_1000
           \<and> clock_of (not_side Black) (game_clock v')
             = clock_of (not_side Black) (game_clock after_four_moves)
           \<and> pos v' = makemove (Counting start_board) (pos after_four_moves) 1
           \<and> play (Counting start_board) (no_adjudication 50) fischer_1000 two_engines
                \<lparr>handshake = True, answers = four_moves @ Bestmove ''1'' 100 # []\<rparr>
              = after_try (Counting start_board)
                  (play_loop (Counting start_board) (no_adjudication 50) fischer_1000 two_engines
                     [] v')"
    using intime clocks(3,10) by simp
  then have cont: "\<exists>v'. advance (Counting start_board) (no_adjudication 50) fischer_1000
               two_engines (four_moves @ [Bestmove ''1'' 100])
               (initial (Counting start_board) fischer_1000 two_engines) = Some v'
           \<and> clock_of Black (game_clock v') = 100
           \<and> clock_of White (game_clock v') = 900
           \<and> pos v' = \<lparr>to_move = White, blacks = 5, whites = 4, halfmoves = 5, stuck = False\<rparr>"
    unfolding moved clocks(4,5,10) by auto
  have positive: "0 < btime (game_clock after_four_moves) \<and> 0 < wtime (game_clock after_four_moves)"
    using late clocks(6-9) by blast
  from game reach here clocks(1-3,6-9) init lost cont positive
  show ?thesis by blast
qed

text \<open>
  C5 as stated fails where Black's clock is not positive when White moves: with
  \<open>btime = 0\<close>, \<open>wtime = 1000\<close> and White to move first, White answers after 2000 ms;
  White's remaining time is \<open>-1000\<close>, and the result is a win on time for White.
\<close>

theorem fischer_clock_counterexample:
  "type black_clock_zero = Time
   \<and> get_turn (Counting white_starts) white_starts = White
   \<and> legal_move (Counting white_starts) white_starts ''1'' = Some 1
   \<and> wtime black_clock_zero - 2000 \<le> 0
   \<and> map_Run (result \<circ> info)
        (play (Counting white_starts) (no_adjudication 50) black_clock_zero two_engines
           \<lparr>handshake = True, answers = [Bestmove ''1'' 2000]\<rparr>) = Returned WhiteWin
   \<and> map_Run (reason \<circ> info)
        (play (Counting white_starts) (no_adjudication 50) black_clock_zero two_engines
           \<lparr>handshake = True, answers = [Bestmove ''1'' 2000]\<rparr>) = Returned OutOfTime
   \<and> map_Run (wtime \<circ> game_clock)
        (play (Counting white_starts) (no_adjudication 50) black_clock_zero two_engines
           \<lparr>handshake = True, answers = [Bestmove ''1'' 2000]\<rparr>) = Returned (- 1000)"
  by (simp add: run_defs white_starts_def no_adjudication_def black_clock_zero_def
      two_engines_def)

section \<open>The order of the adjudication rules (C6)\<close>

text \<open>
  C6: at the head of the loop, in a position that is not game over, the driver looks at
  the rules before it asks for a move, whatever answers are still to come:
  \<^item> if the material rule is enabled and triggers, the game ends with
    \<open>MaterialImbalance\<close>, whatever the other two rules say;
  \<^item> else if the easy-fill rule is enabled and triggers, the game ends with \<open>EasyFill\<close>
    and a win for the side that is not to move, whatever the game-length rule says;
  \<^item> else if the game-length rule is enabled and triggers, the game ends with
    \<open>Gamelength\<close> and a draw;
  \<^item> else the engine to move is asked, and the driver waits for its answer.
\<close>

theorem adjudication_order:
  assumes "fen game \<noteq> []" and "id_e (engine1 game) \<noteq> id_e (engine2 game)"
    and "advance L adjudication tc game rs (initial L tc game) = Some v"
    and "\<not> is_gameover L (pos v)"
  shows "(material_rule L adjudication (pos v) \<longrightarrow>
            (\<exists>out. play L adjudication tc game \<lparr>handshake = True, answers = rs @ rest\<rparr>
                    = Returned out
               \<and> result (info out) = make_win_for (get_turn L (pos v))
               \<and> reason (info out) = MaterialImbalance))
       \<and> (\<not> material_rule L adjudication (pos v) \<and> easyfill_rule L adjudication (pos v) \<longrightarrow>
            (\<exists>out. play L adjudication tc game \<lparr>handshake = True, answers = rs @ rest\<rparr>
                    = Returned out
               \<and> result (info out) = make_win_for (not_side (get_turn L (pos v)))
               \<and> reason (info out) = EasyFill))
       \<and> (\<not> material_rule L adjudication (pos v) \<and> \<not> easyfill_rule L adjudication (pos v)
           \<and> gamelength_rule L adjudication (pos v) \<longrightarrow>
            (\<exists>out. play L adjudication tc game \<lparr>handshake = True, answers = rs @ rest\<rparr>
                    = Returned out
               \<and> result (info out) = Draw
               \<and> reason (info out) = Gamelength))
       \<and> (\<not> material_rule L adjudication (pos v) \<and> \<not> easyfill_rule L adjudication (pos v)
           \<and> \<not> gamelength_rule L adjudication (pos v) \<longrightarrow>
            play L adjudication tc game \<lparr>handshake = True, answers = rs @ []\<rparr> = Blocked)"
proof -
  have ended: "\<exists>out. play L adjudication tc game \<lparr>handshake = True, answers = rs @ rest\<rparr>
                    = Returned out
               \<and> result (info out) = r \<and> reason (info out) = why"
    if "adjudicate L adjudication v = Some (set_result r why v)" and "r \<noteq> Result_None"
    for r why
    using that play_from [OF assms(1-3), of rest] assms(4)
    by (simp add: play_loop_adjudicated after_try_def finish_result)
  have draw: "Draw \<noteq> Result_None" by simp
  show ?thesis
  proof (intro conjI impI)
    assume "material_rule L adjudication (pos v)"
    then have "adjudicate L adjudication v
        = Some (set_result (make_win_for (get_turn L (pos v))) MaterialImbalance v)"
      by (simp add: adjudicate_def)
    from ended [OF this make_win_for_not_None]
    show "\<exists>out. play L adjudication tc game \<lparr>handshake = True, answers = rs @ rest\<rparr>
                    = Returned out
               \<and> result (info out) = make_win_for (get_turn L (pos v))
               \<and> reason (info out) = MaterialImbalance" .
  next
    assume "\<not> material_rule L adjudication (pos v) \<and> easyfill_rule L adjudication (pos v)"
    then have "adjudicate L adjudication v
        = Some (set_result (make_win_for (not_side (get_turn L (pos v)))) EasyFill v)"
      by (simp add: adjudicate_def)
    from ended [OF this make_win_for_not_None]
    show "\<exists>out. play L adjudication tc game \<lparr>handshake = True, answers = rs @ rest\<rparr>
                    = Returned out
               \<and> result (info out) = make_win_for (not_side (get_turn L (pos v)))
               \<and> reason (info out) = EasyFill" .
  next
    assume "\<not> material_rule L adjudication (pos v) \<and> \<not> easyfill_rule L adjudication (pos v)
           \<and> gamelength_rule L adjudication (pos v)"
    then have "adjudicate L adjudication v = Some (set_result Draw Gamelength v)"
      by (simp add: adjudicate_def)
    from ended [OF this draw]
    show "\<exists>out. play L adjudication tc game \<lparr>handshake = True, answers = rs @ rest\<rparr>
                    = Returned out
               \<and> result (info out) = Draw
               \<and> reason (info out) = Gamelength" .
  next
    assume "\<not> material_rule L adjudication (pos v) \<and> \<not> easyfill_rule L adjudication (pos v)
           \<and> \<not> gamelength_rule L adjudication (pos v)"
    then have "adjudicate L adjudication v = None"
      by (simp add: adjudicate_def)
    then show "play L adjudication tc game \<lparr>handshake = True, answers = rs @ []\<rparr> = Blocked"
      using play_from [OF assms(1-3), of "[]"] assms(4)
      by (simp add: play_loop_silent after_try_def)
  qed
qed

theorem adjudication_order_witness:
  "fen two_engines \<noteq> [] \<and> id_e (engine1 two_engines) \<noteq> id_e (engine2 two_engines)
   \<and> advance (Counting all_three) all_rules movetime_100 two_engines []
        (initial (Counting all_three) movetime_100 two_engines)
      = Some (initial (Counting all_three) movetime_100 two_engines)
   \<and> \<not> is_gameover (Counting all_three) (pos (initial (Counting all_three) movetime_100 two_engines))
   \<and> material_rule (Counting all_three) all_rules all_three
   \<and> easyfill_rule (Counting all_three) all_rules all_three
   \<and> gamelength_rule (Counting all_three) all_rules all_three
   \<and> (\<exists>out. play (Counting all_three) all_rules movetime_100 two_engines
               \<lparr>handshake = True, answers = [] @ [Bestmove ''1'' 10]\<rparr> = Returned out
           \<and> result (info out) = WhiteWin \<and> reason (info out) = MaterialImbalance)
   \<and> advance (Counting stuck_and_late) all_rules movetime_100 two_engines []
        (initial (Counting stuck_and_late) movetime_100 two_engines)
      = Some (initial (Counting stuck_and_late) movetime_100 two_engines)
   \<and> \<not> is_gameover (Counting stuck_and_late)
         (pos (initial (Counting stuck_and_late) movetime_100 two_engines))
   \<and> \<not> material_rule (Counting stuck_and_late) all_rules stuck_and_late
   \<and> easyfill_rule (Counting stuck_and_late) all_rules stuck_and_late
   \<and> gamelength_rule (Counting stuck_and_late) all_rules stuck_and_late
   \<and> (\<exists>out. play (Counting stuck_and_late) all_rules movetime_100 two_engines
               \<lparr>handshake = True, answers = [] @ [Bestmove ''1'' 10]\<rparr> = Returned out
           \<and> result (info out) = BlackWin \<and> reason (info out) = EasyFill)
   \<and> advance (Counting late_only) all_rules movetime_100 two_engines []
        (initial (Counting late_only) movetime_100 two_engines)
      = Some (initial (Counting late_only) movetime_100 two_engines)
   \<and> \<not> is_gameover (Counting late_only)
         (pos (initial (Counting late_only) movetime_100 two_engines))
   \<and> \<not> material_rule (Counting late_only) all_rules late_only
   \<and> \<not> easyfill_rule (Counting late_only) all_rules late_only
   \<and> gamelength_rule (Counting late_only) all_rules late_only
   \<and> (\<exists>out. play (Counting late_only) all_rules movetime_100 two_engines
               \<lparr>handshake = True, answers = [] @ [Bestmove ''1'' 10]\<rparr> = Returned out
           \<and> result (info out) = Draw \<and> reason (info out) = Gamelength)
   \<and> advance (Counting start_board) all_rules movetime_100 two_engines []
        (initial (Counting start_board) movetime_100 two_engines)
      = Some (initial (Counting start_board) movetime_100 two_engines)
   \<and> \<not> is_gameover (Counting start_board)
         (pos (initial (Counting start_board) movetime_100 two_engines))
   \<and> \<not> material_rule (Counting start_board) all_rules start_board
   \<and> \<not> easyfill_rule (Counting start_board) all_rules start_board
   \<and> \<not> gamelength_rule (Counting start_board) all_rules start_board
   \<and> play (Counting start_board) all_rules movetime_100 two_engines
        \<lparr>handshake = True, answers = [] @ []\<rparr> = Blocked"
proof -
  have game: "fen two_engines \<noteq> []" "id_e (engine1 two_engines) \<noteq> id_e (engine2 two_engines)"
    by (simp_all add: two_engines_def)
  have start: "advance (Counting b) all_rules movetime_100 two_engines []
        (initial (Counting b) movetime_100 two_engines)
      = Some (initial (Counting b) movetime_100 two_engines)" for b
    by simp
  have at: "pos (initial (Counting b) movetime_100 two_engines) = b" for b
    by simp
  have live: "\<not> is_gameover (Counting all_three) all_three"
    "\<not> is_gameover (Counting stuck_and_late) stuck_and_late"
    "\<not> is_gameover (Counting late_only) late_only"
    "\<not> is_gameover (Counting start_board) start_board"
    by (simp_all add: all_three_def stuck_and_late_def late_only_def start_board_def)
  have rules: "material_rule (Counting all_three) all_rules all_three"
    "easyfill_rule (Counting all_three) all_rules all_three"
    "gamelength_rule (Counting all_three) all_rules all_three"
    "\<not> material_rule (Counting stuck_and_late) all_rules stuck_and_late"
    "easyfill_rule (Counting stuck_and_late) all_rules stuck_and_late"
    "gamelength_rule (Counting stuck_and_late) all_rules stuck_and_late"
    "\<not> material_rule (Counting late_only) all_rules late_only"
    "\<not> easyfill_rule (Counting late_only) all_rules late_only"
    "gamelength_rule (Counting late_only) all_rules late_only"
    "\<not> material_rule (Counting start_board) all_rules start_board"
    "\<not> easyfill_rule (Counting start_board) all_rules start_board"
    "\<not> gamelength_rule (Counting start_board) all_rules start_board"
    by (simp_all add: material_rule_def easyfill_rule_def gamelength_rule_def all_rules_def
        all_three_def stuck_and_late_def late_only_def start_board_def)
  have wins: "make_win_for (get_turn (Counting all_three) all_three) = WhiteWin"
    "make_win_for (not_side (get_turn (Counting stuck_and_late) stuck_and_late)) = BlackWin"
    by (simp_all add: make_win_for_def all_three_def stuck_and_late_def)
  note a = adjudication_order [where L = "Counting all_three" and rest = "[Bestmove ''1'' 10]",
      OF game start, unfolded at, OF live(1)]
  note b = adjudication_order [where L = "Counting stuck_and_late" and rest = "[Bestmove ''1'' 10]",
      OF game start, unfolded at, OF live(2)]
  note c = adjudication_order [where L = "Counting late_only" and rest = "[Bestmove ''1'' 10]",
      OF game start, unfolded at, OF live(3)]
  note d = adjudication_order [where L = "Counting start_board" and rest = "[]",
      OF game start, unfolded at, OF live(4)]
  from a rules(1) wins(1)
  have 1: "\<exists>out. play (Counting all_three) all_rules movetime_100 two_engines
               \<lparr>handshake = True, answers = [] @ [Bestmove ''1'' 10]\<rparr> = Returned out
           \<and> result (info out) = WhiteWin \<and> reason (info out) = MaterialImbalance"
    by simp
  from b rules(4,5) wins(2)
  have 2: "\<exists>out. play (Counting stuck_and_late) all_rules movetime_100 two_engines
               \<lparr>handshake = True, answers = [] @ [Bestmove ''1'' 10]\<rparr> = Returned out
           \<and> result (info out) = BlackWin \<and> reason (info out) = EasyFill"
    by simp
  from c rules(7,8,9)
  have 3: "\<exists>out. play (Counting late_only) all_rules movetime_100 two_engines
               \<lparr>handshake = True, answers = [] @ [Bestmove ''1'' 10]\<rparr> = Returned out
           \<and> result (info out) = Draw \<and> reason (info out) = Gamelength"
    by simp
  from d rules(10,11,12)
  have 4: "play (Counting start_board) all_rules movetime_100 two_engines
        \<lparr>handshake = True, answers = [] @ []\<rparr> = Blocked"
    by simp
  from game start live rules 1 2 3 4 show ?thesis
    unfolding at by blast
qed

section \<open>An illegal first reply (C7)\<close>

text \<open>
  C7: when the start position is not game over, no adjudication rule triggers in it,
  and the first reply fails to parse or is not legal, both drivers end the game at once
  with a win for the opponent of the engine that replied: \<open>WhiteWin\<close> when Black was to
  move, \<open>BlackWin\<close> when White was. The reason is \<open>IllegalMove\<close>, no move is counted or
  recorded, the final position is the start position, and one line naming the token and
  the engine that replied is printed. The PGN returned has, after the four headers of
  the start, the result headers of that win (\<open>0-1\<close> with engine 2 as winner, or \<open>1-0\<close>
  with engine 1), the header \<open>Adjudicated\<close> with \<open>Illegal move\<close> and the token, a
  \<open>PlyCount\<close> of 0 and the statistics of the start position, and an empty main line.
\<close>

theorem first_reply_illegal:
  assumes "fen game \<noteq> []" and "id_e (engine1 game) \<noteq> id_e (engine2 game)"
    and "\<not> is_gameover L (Position L (fen game))"
    and "adjudicate L adjudication (initial L tc game) = None"
    and "adjudicate_cli L settings (initial_cli L settings game) = None"
    and "parse_move L token = None
         \<or> (\<exists>m. parse_move L token = Some m \<and> \<not> is_legal_move L (Position L (fen game)) m)"
    and "mover = get_turn L (Position L (fen game))"
    and "line = ''Illegal move '' @ quote @ token @ quote @ '' played by ''
                @ (if mover = Black then name (engine1 game) else name (engine2 game))
                @ newline @ newline"
  shows "(\<exists>out. play L adjudication tc game
                  \<lparr>handshake = True, answers = Bestmove token diff # rest\<rparr> = Returned out
            \<and> result (info out) = (if mover = Black then WhiteWin else BlackWin)
            \<and> reason (info out) = IllegalMove
            \<and> ply_count out = 0
            \<and> history (info out) = []
            \<and> endpos (info out) = startpos (info out)
            \<and> cout out = line)
       \<and> (\<exists>out. play_cli L settings game
                  \<lparr>handshake = True, answers = Bestmove token diff # rest\<rparr> = Returned out
            \<and> header (returned out)
              = [(''Event'', pgn_event settings), (colour1 settings, name (engine1 game)),
                 (colour2 settings, name (engine2 game)), (''FEN'', fen game)]
                @ (if mover = Black
                   then [(''Result'', ''0-1''), (''Winner'', name (engine2 game)),
                         (''Loser'', name (engine1 game))]
                   else [(''Result'', ''1-0''), (''Winner'', name (engine1 game)),
                         (''Loser'', name (engine2 game))])
                @ [(''Adjudicated'', ''Illegal move '' @ token), (''PlyCount'', ''0''),
                   (''Final FEN'', get_fen L (Position L (fen game))),
                   (''Material'',
                    (if black_count L (Position L (fen game))
                          - white_count L (Position L (fen game)) \<ge> 0 then ''+'' else [])
                    @ to_string (black_count L (Position L (fen game))
                          - white_count L (Position L (fen game))))]
            \<and> mainline (returned out) = []
            \<and> printed out = line)"
proof -
  from assms(6) have bad: "legal_move L (Position L (fen game)) token = None"
    by (simp add: legal_move_None_iff)
  have core: "play L adjudication tc game
                  \<lparr>handshake = True, answers = Bestmove token diff # rest\<rparr>
     = Returned (finish L
         ((set_result (make_win_for (not_side mover)) IllegalMove (initial L tc game))
            \<lparr>cout := line\<rparr>))"
    using play_from [OF assms(1,2), of L adjudication tc "[]" "initial L tc game"
        "Bestmove token diff # rest"] assms(3,4,7,8) bad
    by (simp add: play_loop_request request_illegal after_try_def illegal_move_message_def)
  have cli: "play_cli L settings game
                  \<lparr>handshake = True, answers = Bestmove token diff # rest\<rparr>
     = Returned
         \<lparr>returned = pgn (finish_cli L game
            ((initial_cli L settings game)
               \<lparr>movestr := token, result_reason := IllegalMove,
                 result_cli := make_win_for (not_side mover), cout_cli := line\<rparr>)),
          printed = line\<rparr>"
    using play_cli_from [OF assms(1,2), of L settings "[]" "initial_cli L settings game"
        "Bestmove token diff # rest"] assms(3,5,7,8) bad
    by (simp add: play_loop_cli_request request_cli_illegal after_try_cli_def
        illegal_move_message_def Let_def finish_cli_def)
  have first: "\<exists>out. play L adjudication tc game
                  \<lparr>handshake = True, answers = Bestmove token diff # rest\<rparr> = Returned out
            \<and> result (info out) = (if mover = Black then WhiteWin else BlackWin)
            \<and> reason (info out) = IllegalMove
            \<and> ply_count out = 0
            \<and> history (info out) = []
            \<and> endpos (info out) = startpos (info out)
            \<and> cout out = line"
    unfolding core
    by (cases mover) (simp_all add: finish_result set_result_def make_win_for_def)
  have second: "\<exists>out. play_cli L settings game
                  \<lparr>handshake = True, answers = Bestmove token diff # rest\<rparr> = Returned out
            \<and> header (returned out)
              = [(''Event'', pgn_event settings), (colour1 settings, name (engine1 game)),
                 (colour2 settings, name (engine2 game)), (''FEN'', fen game)]
                @ (if mover = Black
                   then [(''Result'', ''0-1''), (''Winner'', name (engine2 game)),
                         (''Loser'', name (engine1 game))]
                   else [(''Result'', ''1-0''), (''Winner'', name (engine1 game)),
                         (''Loser'', name (engine2 game))])
                @ [(''Adjudicated'', ''Illegal move '' @ token), (''PlyCount'', ''0''),
                   (''Final FEN'', get_fen L (Position L (fen game))),
                   (''Material'',
                    (if black_count L (Position L (fen game))
                          - white_count L (Position L (fen game)) \<ge> 0 then ''+'' else [])
                    @ to_string (black_count L (Position L (fen game))
                          - white_count L (Position L (fen game))))]
            \<and> mainline (returned out) = []
            \<and> printed out = line"
    unfolding cli
    by (cases mover)
      (simp_all add: finish_cli_def Let_def reason_header_def statistics_def add_def
        result_headers_def make_win_for_def to_string_0)
  from first second show ?thesis by blast
qed

theorem first_reply_illegal_witness:
  "fen two_engines \<noteq> [] \<and> id_e (engine1 two_engines) \<noteq> id_e (engine2 two_engines)
   \<and> \<not> is_gameover (Counting start_board) (Position (Counting start_board) (fen two_engines))
   \<and> adjudicate (Counting start_board) (no_adjudication 50)
        (initial (Counting start_board) movetime_100 two_engines) = None
   \<and> adjudicate_cli (Counting start_board) plain_settings
        (initial_cli (Counting start_board) plain_settings two_engines) = None
   \<and> parse_move (Counting start_board) ''xyz'' = None
   \<and> Black = get_turn (Counting start_board) (Position (Counting start_board) (fen two_engines))
   \<and> (\<exists>out. play (Counting start_board) (no_adjudication 50) movetime_100 two_engines
               \<lparr>handshake = True, answers = Bestmove ''xyz'' 10 # []\<rparr> = Returned out
         \<and> result (info out) = WhiteWin
         \<and> reason (info out) = IllegalMove
         \<and> ply_count out = 0
         \<and> history (info out) = []
         \<and> cout out
           = ''Illegal move '' @ quote @ ''xyz'' @ quote @ '' played by alpha'' @ newline @ newline)
   \<and> (\<exists>out. play_cli (Counting start_board) plain_settings two_engines
               \<lparr>handshake = True, answers = Bestmove ''xyz'' 10 # []\<rparr> = Returned out
         \<and> header (returned out)
           = [(''Event'', ''Match''), (''Black'', ''alpha''), (''White'', ''beta''),
              (''FEN'', ''x5o/7/7/7/7/7/o5x x 0 1''), (''Result'', ''0-1''),
              (''Winner'', ''beta''), (''Loser'', ''alpha''),
              (''Adjudicated'', ''Illegal move xyz''), (''PlyCount'', ''0''),
              (''Final FEN'', ''x''), (''Material'', ''+0'')]
         \<and> mainline (returned out) = []
         \<and> printed out
           = ''Illegal move '' @ quote @ ''xyz'' @ quote @ '' played by alpha'' @ newline @ newline)
   \<and> \<not> is_gameover (Counting white_starts) (Position (Counting white_starts) (fen two_engines))
   \<and> adjudicate (Counting white_starts) (no_adjudication 50)
        (initial (Counting white_starts) movetime_100 two_engines) = None
   \<and> adjudicate_cli (Counting white_starts) plain_settings
        (initial_cli (Counting white_starts) plain_settings two_engines) = None
   \<and> parse_move (Counting white_starts) ''xyz'' = None
   \<and> White = get_turn (Counting white_starts) (Position (Counting white_starts) (fen two_engines))
   \<and> (\<exists>out. play (Counting white_starts) (no_adjudication 50) movetime_100 two_engines
               \<lparr>handshake = True, answers = Bestmove ''xyz'' 10 # []\<rparr> = Returned out
         \<and> result (info out) = BlackWin
         \<and> reason (info out) = IllegalMove
         \<and> ply_count out = 0
         \<and> history (info out) = []
         \<and> cout out
           = ''Illegal move '' @ quote @ ''xyz'' @ quote @ '' played by beta'' @ newline @ newline)
   \<and> (\<exists>out. play_cli (Counting white_starts) plain_settings two_engines
               \<lparr>handshake = True, answers = Bestmove ''xyz'' 10 # []\<rparr> = Returned out
         \<and> header (returned out)
           = [(''Event'', ''Match''), (''Black'', ''alpha''), (''White'', ''beta''),
              (''FEN'', ''x5o/7/7/7/7/7/o5x x 0 1''), (''Result'', ''1-0''),
              (''Winner'', ''alpha''), (''Loser'', ''beta''),
              (''Adjudicated'', ''Illegal move xyz''), (''PlyCount'', ''0''),
              (''Final FEN'', ''o''), (''Material'', ''+0'')]
         \<and> mainline (returned out) = []
         \<and> printed out
           = ''Illegal move '' @ quote @ ''xyz'' @ quote @ '' played by beta'' @ newline @ newline)"
proof -
  have game: "fen two_engines \<noteq> []" "id_e (engine1 two_engines) \<noteq> id_e (engine2 two_engines)"
    by (simp_all add: two_engines_def)
  have live: "\<not> is_gameover (Counting start_board)
      (Position (Counting start_board) (fen two_engines))"
    "\<not> is_gameover (Counting white_starts)
      (Position (Counting white_starts) (fen two_engines))"
    by (simp_all add: start_board_def white_starts_def)
  have quiet: "adjudicate (Counting s) (no_adjudication 50)
        (initial (Counting s) movetime_100 two_engines) = None"
    "adjudicate_cli (Counting s) plain_settings
        (initial_cli (Counting s) plain_settings two_engines) = None" for s
    by (simp_all add: adjudicate_def material_rule_def easyfill_rule_def gamelength_rule_def
        no_adjudication_def adjudicate_cli_def plain_settings_def)
  have bad: "parse_move (Counting s) ''xyz'' = None
     \<or> (\<exists>m. parse_move (Counting s) ''xyz'' = Some m
           \<and> \<not> is_legal_move (Counting s) (Position (Counting s) (fen two_engines)) m)" for s
    by simp
  have token: "parse_move (Counting s) ''xyz'' = None" for s
    by simp
  have mover: "Black = get_turn (Counting start_board)
      (Position (Counting start_board) (fen two_engines))"
    "White = get_turn (Counting white_starts)
      (Position (Counting white_starts) (fen two_engines))"
    by (simp_all add: start_board_def white_starts_def)
  have line: "''Illegal move '' @ quote @ ''xyz'' @ quote @ '' played by alpha'' @ newline @ newline
     = ''Illegal move '' @ quote @ ''xyz'' @ quote @ '' played by ''
       @ (if Black = Black then name (engine1 two_engines) else name (engine2 two_engines))
       @ newline @ newline"
    "''Illegal move '' @ quote @ ''xyz'' @ quote @ '' played by beta'' @ newline @ newline
     = ''Illegal move '' @ quote @ ''xyz'' @ quote @ '' played by ''
       @ (if White = Black then name (engine1 two_engines) else name (engine2 two_engines))
       @ newline @ newline"
    by (simp_all add: two_engines_def)
  have headers: "[(''Event'', pgn_event plain_settings), (colour1 plain_settings, name (engine1 two_engines)),
         (colour2 plain_settings, name (engine2 two_engines)), (''FEN'', fen two_engines)]
        @ (if Black = Black
           then [(''Result'', ''0-1''), (''Winner'', name (engine2 two_engines)),
                 (''Loser'', name (engine1 two_engines))]
           else [(''Result'', ''1-0''), (''Winner'', name (engine1 two_engines)),
                 (''Loser'', name (engine2 two_engines))])
        @ [(''Adjudicated'', ''Illegal move '' @ ''xyz''), (''PlyCount'', ''0''),
           (''Final FEN'', get_fen (Counting start_board) (Position (Counting start_board) (fen two_engines))),
           (''Material'',
            (if black_count (Counting start_board) (Position (Counting start_board) (fen two_engines)) - white_count (Counting start_board) (Position (Counting start_board) (fen two_engines)) \<ge> 0 then ''+'' else [])
            @ to_string (black_count (Counting start_board) (Position (Counting start_board) (fen two_engines)) - white_count (Counting start_board) (Position (Counting start_board) (fen two_engines))))]
      = [(''Event'', ''Match''), (''Black'', ''alpha''), (''White'', ''beta''),
         (''FEN'', ''x5o/7/7/7/7/7/o5x x 0 1''), (''Result'', ''0-1''),
         (''Winner'', ''beta''), (''Loser'', ''alpha''),
         (''Adjudicated'', ''Illegal move xyz''), (''PlyCount'', ''0''),
         (''Final FEN'', ''x''), (''Material'', ''+0'')]"
    "[(''Event'', pgn_event plain_settings), (colour1 plain_settings, name (engine1 two_engines)),
         (colour2 plain_settings, name (engine2 two_engines)), (''FEN'', fen two_engines)]
        @ (if White = Black
           then [(''Result'', ''0-1''), (''Winner'', name (engine2 two_engines)),
                 (''Loser'', name (engine1 two_engines))]
           else [(''Result'', ''1-0''), (''Winner'', name (engine1 two_engines)),
                 (''Loser'', name (engine2 two_engines))])
        @ [(''Adjudicated'', ''Illegal move '' @ ''xyz''), (''PlyCount'', ''0''),
           (''Final FEN'', get_fen (Counting white_starts) (Position (Counting white_starts) (fen two_engines))),
           (''Material'',
            (if black_count (Counting white_starts) (Position (Counting white_starts) (fen two_engines)) - white_count (Counting white_starts) (Position (Counting white_starts) (fen two_engines)) \<ge> 0 then ''+'' else [])
            @ to_string (black_count (Counting white_starts) (Position (Counting white_starts) (fen two_engines)) - white_count (Counting white_starts) (Position (Counting white_starts) (fen two_engines))))]
      = [(''Event'', ''Match''), (''Black'', ''alpha''), (''White'', ''beta''),
         (''FEN'', ''x5o/7/7/7/7/7/o5x x 0 1''), (''Result'', ''1-0''),
         (''Winner'', ''alpha''), (''Loser'', ''beta''),
         (''Adjudicated'', ''Illegal move xyz''), (''PlyCount'', ''0''),
         (''Final FEN'', ''o''), (''Material'', ''+0'')]"
    by (simp_all add: two_engines_def plain_settings_def start_board_def white_starts_def
        to_string_0)
  have side: "(if Black = Black then WhiteWin else BlackWin) = WhiteWin"
    "(if White = Black then WhiteWin else BlackWin) = BlackWin"
    by simp_all
  note black = first_reply_illegal [OF game live(1) quiet bad mover(1) line(1), of 10 "[]",
      unfolded headers side]
  note white = first_reply_illegal [OF game live(2) quiet bad mover(2) line(2), of 10 "[]",
      unfolded headers side]
  from game live quiet token mover black white show ?thesis by blast
qed

section \<open>The schedule of two players, two games, two openings, with repeat (C8)\<close>

text \<open>
  C8: the generator for 2 players, 2 games, 2 openings with \<open>repeat\<close> expects 2 games,
  and its first six calls of \<open>next\<close> give \<open>(0,0,0,1)\<close>, \<open>(1,0,1,0)\<close>, \<open>(2,0,0,1)\<close>,
  \<open>(3,0,1,0)\<close>, \<open>(4,0,0,1)\<close>, \<open>(5,0,1,0)\<close>. For every number \<open>n\<close> of earlier calls, the
  next call gives game \<open>n\<close> with opening 0 and the players \<open>n mod 2\<close> and
  \<open>1 - n mod 2\<close>, so that
  \<^item> every game of players 0 and 1 is immediately followed by the game with the colours
    swapped and the same opening;
  \<^item> the games come again after the expected count;
  \<^item> \<open>game_id\<close> is the number of earlier calls: it counts from 0 and is never reset.
\<close>

theorem round_robin_2_2_2_repeat:
  "expected (RoundRobinGenerator_new 2 2 2 True) = 2
   \<and> next_games 6 (RoundRobinGenerator_new 2 2 2 True)
     = [Some \<lparr>game_id = 0, opening_id = 0, player1_idx = 0, player2_idx = 1\<rparr>,
        Some \<lparr>game_id = 1, opening_id = 0, player1_idx = 1, player2_idx = 0\<rparr>,
        Some \<lparr>game_id = 2, opening_id = 0, player1_idx = 0, player2_idx = 1\<rparr>,
        Some \<lparr>game_id = 3, opening_id = 0, player1_idx = 1, player2_idx = 0\<rparr>,
        Some \<lparr>game_id = 4, opening_id = 0, player1_idx = 0, player2_idx = 1\<rparr>,
        Some \<lparr>game_id = 5, opening_id = 0, player1_idx = 1, player2_idx = 0\<rparr>]
   \<and> (\<forall>n. nth_game n (RoundRobinGenerator_new 2 2 2 True)
          = Some \<lparr>game_id = n, opening_id = 0, player1_idx = n mod 2,
                  player2_idx = 1 - n mod 2\<rparr>)
   \<and> (\<forall>n. \<exists>a b. nth_game (2 * n) (RoundRobinGenerator_new 2 2 2 True) = Some a
          \<and> nth_game (2 * n + 1) (RoundRobinGenerator_new 2 2 2 True) = Some b
          \<and> player1_idx a = 0 \<and> player2_idx a = 1
          \<and> colour_swapped a b)
   \<and> (\<forall>n. \<exists>a b. nth_game n (RoundRobinGenerator_new 2 2 2 True) = Some a
          \<and> nth_game (n + expected (RoundRobinGenerator_new 2 2 2 True))
               (RoundRobinGenerator_new 2 2 2 True) = Some b
          \<and> opening_id b = opening_id a \<and> player1_idx b = player1_idx a
          \<and> player2_idx b = player2_idx a)
   \<and> (\<forall>n. \<exists>a. nth_game n (RoundRobinGenerator_new 2 2 2 True) = Some a \<and> game_id a = n)"
proof -
  let ?g = "RoundRobinGenerator_new 2 2 2 True"
  have fresh: "calls ?g = 0" by (simp add: RoundRobinGenerator_new_def)
  have nth: "nth_game n ?g
      = Some \<lparr>game_id = n, opening_id = 0, player1_idx = n mod 2, player2_idx = 1 - n mod 2\<rparr>"
    for n
    by (simp add: nth_game_game_at fresh game_at_2_2_2_repeat)
  have e: "expected ?g = 2"
    by (rule expected_2_2_2_repeat)
  have six: "next_games 6 ?g
     = [Some \<lparr>game_id = 0, opening_id = 0, player1_idx = 0, player2_idx = 1\<rparr>,
        Some \<lparr>game_id = 1, opening_id = 0, player1_idx = 1, player2_idx = 0\<rparr>,
        Some \<lparr>game_id = 2, opening_id = 0, player1_idx = 0, player2_idx = 1\<rparr>,
        Some \<lparr>game_id = 3, opening_id = 0, player1_idx = 1, player2_idx = 0\<rparr>,
        Some \<lparr>game_id = 4, opening_id = 0, player1_idx = 0, player2_idx = 1\<rparr>,
        Some \<lparr>game_id = 5, opening_id = 0, player1_idx = 1, player2_idx = 0\<rparr>]"
    by code_simp
  have swap: "\<exists>a b. nth_game (2 * n) ?g = Some a \<and> nth_game (2 * n + 1) ?g = Some b
          \<and> player1_idx a = 0 \<and> player2_idx a = 1 \<and> colour_swapped a b" for n
    by (simp add: nth colour_swapped_def)
  have cycle: "\<exists>a b. nth_game n ?g = Some a \<and> nth_game (n + expected ?g) ?g = Some b
          \<and> opening_id b = opening_id a \<and> player1_idx b = player1_idx a
          \<and> player2_idx b = player2_idx a" for n
    by (simp add: nth e)
  have count: "\<exists>a. nth_game n ?g = Some a \<and> game_id a = n" for n
    by (simp add: nth)
  from e six nth swap cycle count show ?thesis by blast
qed

section \<open>The ply count and the history (C9)\<close>

text \<open>
  C9: whenever \<open>play\<close> returns, its \<open>ply_count\<close> is the length of the history it
  returns: the two grow together, by one for every move that parses and is legal.
\<close>

theorem ply_count_is_history_length:
  assumes "play L adjudication tc game engines = Returned out"
  shows "ply_count out = int (length (history (info out)))"
  using assms by (rule play_ply_count)

theorem ply_count_is_history_length_witness:
  "play (Counting start_board) (no_adjudication 50) movetime_100 two_engines
     \<lparr>handshake = True, answers = [Bestmove ''1'' 10, Bestmove ''2'' 20, Bestmove ''1'' 200]\<rparr>
   = Returned late_third_move
   \<and> ply_count late_third_move = int (length (history (info late_third_move)))"
proof -
  have run: "play (Counting start_board) (no_adjudication 50) movetime_100 two_engines
     \<lparr>handshake = True, answers = [Bestmove ''1'' 10, Bestmove ''2'' 20, Bestmove ''1'' 200]\<rparr>
   = Returned late_third_move"
    by (simp add: run_defs start_board_def no_adjudication_def movetime_100_def two_engines_def
        late_third_move_def)
  from run ply_count_is_history_length [OF run] show ?thesis by simp
qed

section \<open>The final position and the history (C10)\<close>

text \<open>
  C10: when \<open>play\<close> returns with reason \<open>OutOfTime\<close>, the history is not empty, its last
  move was legal but was never made on the board, so \<open>endpos\<close> is the start position
  after all moves of the history but the last, while \<open>ply_count\<close> counts the last move
  too. With every other reason, in particular when the game ran to its end, \<open>endpos\<close>
  is the start position after all moves of the history.
\<close>

theorem endpos_and_history:
  assumes "play L adjudication tc game engines = Returned out"
  shows "(reason (info out) = OutOfTime \<longrightarrow>
            history (info out) \<noteq> []
            \<and> endpos (info out) = replay L (startpos (info out)) (butlast (history (info out)))
            \<and> is_legal_move L (endpos (info out)) (fst (last (history (info out))))
            \<and> ply_count out = int (length (history (info out))))
         \<and> (reason (info out) \<noteq> OutOfTime \<longrightarrow>
            endpos (info out) = replay L (startpos (info out)) (history (info out)))"
proof -
  let ?I = "\<lambda>v::('a, 'b) Vars. pos v = replay L (startpos (info v)) (history (info v))
              \<and> reason (info v) \<noteq> OutOfTime"
  let ?Q = "\<lambda>v::('a, 'b) Vars.
      (reason (info v) = OutOfTime \<longrightarrow>
         history (info v) \<noteq> []
         \<and> pos v = replay L (startpos (info v)) (butlast (history (info v)))
         \<and> is_legal_move L (pos v) (fst (last (history (info v)))))
      \<and> (reason (info v) \<noteq> OutOfTime \<longrightarrow>
         pos v = replay L (startpos (info v)) (history (info v)))"
  have loop: "(play_loop L adjudication tc game (answers engines) (initial L tc game) = Returned v
                \<longrightarrow> ?Q v)
            \<and> (play_loop L adjudication tc game (answers engines) (initial L tc game) = Thrown v
                \<longrightarrow> ?I v)" for v
  proof (rule play_loop_invariant [where I = ?I and Q = ?Q])
    show "?I (initial L tc game)" by (simp add: replay_def)
  next
    fix v assume "?I v" then show "?Q v" by simp
  next
    fix v v' assume "?I v" "adjudicate L adjudication v = Some v'"
    then show "?Q v'" by (auto dest: adjudicate_Some)
  next
    fix v r v' assume "?I v" "request L adjudication tc game r v = Next v'"
    then show "?I v'" by (auto dest!: request_Next simp: replay_snoc)
  next
    fix v r v' assume "?I v" "request L adjudication tc game r v = Break v'"
    then show "?Q v'" by (auto dest!: request_Break legal_move_Some)
  qed
  have len: "ply_count out = int (length (history (info out)))"
    using assms by (rule play_ply_count)
  from assms show ?thesis
  proof (cases rule: play_Returned)
    case (1 v)
    with loop [of v] len show ?thesis by auto
  next
    case (2 v)
    with loop [of v] have "?I v" by (auto simp: replay_def)
    with 2 show ?thesis by (simp add: engine_crash_def)
  qed
qed

theorem endpos_and_history_witness:
  "play (Counting start_board) (no_adjudication 50) movetime_100 two_engines
     \<lparr>handshake = True, answers = [Bestmove ''1'' 10, Bestmove ''2'' 20, Bestmove ''1'' 200]\<rparr>
   = Returned late_third_move
   \<and> reason (info late_third_move) = OutOfTime
   \<and> history (info late_third_move) \<noteq> []
   \<and> endpos (info late_third_move)
     = replay (Counting start_board) (startpos (info late_third_move))
         (butlast (history (info late_third_move)))
   \<and> ply_count late_third_move = int (length (history (info late_third_move)))
   \<and> play (Counting nearly_full) (no_adjudication 50) movetime_100 two_engines
       \<lparr>handshake = True, answers = [Bestmove ''2'' 10]\<rparr>
     = Returned board_filled
   \<and> reason (info board_filled) \<noteq> OutOfTime
   \<and> endpos (info board_filled)
     = replay (Counting nearly_full) (startpos (info board_filled)) (history (info board_filled))"
proof -
  have late: "play (Counting start_board) (no_adjudication 50) movetime_100 two_engines
     \<lparr>handshake = True, answers = [Bestmove ''1'' 10, Bestmove ''2'' 20, Bestmove ''1'' 200]\<rparr>
   = Returned late_third_move"
    by (simp add: run_defs start_board_def no_adjudication_def movetime_100_def two_engines_def
        late_third_move_def)
  have full: "play (Counting nearly_full) (no_adjudication 50) movetime_100 two_engines
       \<lparr>handshake = True, answers = [Bestmove ''2'' 10]\<rparr>
     = Returned board_filled"
    by (simp add: run_defs nearly_full_def no_adjudication_def movetime_100_def two_engines_def
        board_filled_def)
  have 1: "reason (info late_third_move) = OutOfTime"
    and 2: "reason (info board_filled) \<noteq> OutOfTime"
    by (simp_all add: late_third_move_def board_filled_def)
  from late full 1 2 endpos_and_history [OF late] endpos_and_history [OF full]
  show ?thesis by simp
qed

end
